theory Spec2Isabelle
  imports Complex_Main
begin

section \<open>Python values used by tasks/vqa_yn.py\<close>

text \<open>
  The exceptions the driver can raise. A stateful operation that raises returns
  \<open>Inl (e, s)\<close>: the exception together with the state at the moment of the raise, so
  that the effects that happened before it stay visible. A pure computation returns
  \<open>Inl e\<close>.
\<close>

datatype error =
    AssertionError
  | ValueError
  | IndexError
  | TypeError
  | ZeroDivisionError
  | RuntimeError
  | FileNotFoundError
  | AttributeError

text \<open>
  A tensor is its shape and its elements in row-major order. Elements are real numbers:
  rounding of the 32-bit floats is not modelled, and neither is NaN.
\<close>

record tensor =
  shape :: "nat list"
  vals :: "real list"

definition dim :: "tensor \<Rightarrow> nat" where
  "dim t = length (shape t)"

text \<open>\<open>t.size(d)\<close>: the extent of dimension \<open>d\<close>; out of range it raises IndexError.\<close>

definition size_at :: "tensor \<Rightarrow> nat \<Rightarrow> error + nat" where
  "size_at t d = (if d < length (shape t) then Inr (shape t ! d) else Inl IndexError)"

text \<open>A tensor of the library holds as many elements as its shape says.\<close>

definition wf_tensor :: "tensor \<Rightarrow> bool" where
  "wf_tensor t = (length (vals t) = prod_list (shape t))"

text \<open>
  The mean of the elements. For no elements the library gives NaN, which the reals do not
  have: the model is that of the library on tensors that have elements.
\<close>

definition mean :: "real list \<Rightarrow> real" where
  "mean xs = sum_list xs / real (length xs)"

section \<open>The compound loss of a training batch (train, lines 98 to 108)\<close>

definition sigmoid :: "real \<Rightarrow> real" where
  "sigmoid x = 1 / (1 + exp (- x))"

text \<open>
  \<open>nn.BCEWithLogitsLoss()\<close> of the library, with its default mean reduction: the loss of
  one element with logit \<open>x\<close> and target \<open>y\<close> is
  \<open>- (y * ln (sigmoid x) + (1 - y) * ln (1 - sigmoid x))\<close>, and the result is the mean
  over all elements. The library raises ValueError when the target's size is not the
  input's size.
\<close>

definition bce_elem :: "real \<Rightarrow> real \<Rightarrow> real" where
  "bce_elem x y = - (y * ln (sigmoid x) + (1 - y) * ln (1 - sigmoid x))"

definition bce_mean :: "tensor \<Rightarrow> tensor \<Rightarrow> real" where
  "bce_mean inp tgt = mean (map2 bce_elem (vals inp) (vals tgt))"

definition bce_loss :: "tensor \<Rightarrow> tensor \<Rightarrow> error + real" where
  "bce_loss inp tgt =
     (if shape tgt \<noteq> shape inp then Inl ValueError else Inr (bce_mean inp tgt))"

text \<open>
  Lines 99 to 108: the two assertions, then the loss. Python's chained comparison
  \<open>a == b == 2\<close> is \<open>a == b and b == 2\<close>.
\<close>

definition batch_loss :: "tensor \<Rightarrow> tensor \<Rightarrow> tensor \<Rightarrow> tensor \<Rightarrow> error + real" where
  "batch_loss logit target yn_type_logit yntypetarget =
     (if \<not> (dim logit = dim target \<and> dim target = 2) then Inl AssertionError
      else if \<not> (dim yn_type_logit = dim yntypetarget \<and> dim yntypetarget = 2)
        then Inl AssertionError
      else
        case bce_loss logit target of
          Inl e \<Rightarrow> Inl e
        | Inr loss0 \<Rightarrow>
            (case size_at logit 1 of
               Inl e \<Rightarrow> Inl e
             | Inr c1 \<Rightarrow>
                 let loss1 = loss0 * real c1 in
                 (case bce_loss yn_type_logit yntypetarget of
                    Inl e \<Rightarrow> Inl e
                  | Inr loss_yn0 \<Rightarrow>
                      (case size_at yn_type_logit 1 of
                         Inl e \<Rightarrow> Inl e
                       | Inr c2 \<Rightarrow>
                           let loss_yn = loss_yn0 * real c2
                           in Inr (0.9 * loss1 + 0.1 * loss_yn)))))"

section \<open>Data tuples and the state of a run\<close>

text \<open>
  One batch of the loader: the question ids, the inputs of the network (visual features,
  boxes and question text, opaque here), and the two targets.
\<close>

record 'x batch =
  ques_id :: "int list"
  inputs :: 'x
  yntypetarget :: tensor
  target :: tensor

text \<open>
  \<open>DataTuple(dataset, loader, evaluator)\<close>. Of the dataset the driver reads
  \<open>label2ans\<close>; the loader is the finite sequence of batches one pass yields (the
  reshuffling of a shuffling loader between passes is not modelled); the evaluator's
  \<open>evaluate\<close>, of tasks/vqa_data_yn.py, is a parameter: it maps a prediction map to a
  score, or raises.
\<close>

record 'x data_tuple =
  label2ans :: "string list"
  loader :: "'x batch list"
  evaluator :: "(int \<rightharpoonup> string) \<Rightarrow> error + real"

type_synonym state_dict = "string \<rightharpoonup> tensor"

text \<open>What a file holds: a list of pieces, in the order they were written.\<close>

datatype chunk =
    Pth state_dict
  | Json "int \<rightharpoonup> string"
  | Log_Text nat real "(real \<times> real) option"

text \<open>
  The visible effects, in order. \<open>Print_Log epoch train valid_best\<close> stands for
  \<open>log_str\<close>: it holds the scores that the string shows (there times 100, with two
  decimals).
\<close>

datatype event =
    Print_YN real
  | Print_Log nat real "(real \<times> real) option"
  | Print_Folder string "int option"
  | Print_Result real
  | Print_Load string
  | File_Write string
  | File_Append string

text \<open>
  The attributes of the VQA object that the methods use, and the world around it: the
  files and the trace of effects. \<open>model\<close> is the network's parameters by name (its
  \<open>state_dict\<close>): \<open>self.model\<close> is the VQAModel that the constructor builds, never a
  wrapper with a \<open>module\<close> attribute, so \<open>save\<close> stores \<open>self.model\<close> itself.
  \<open>output_dir\<close> is \<open>self.output\<close>, None when the object was built with \<open>load=False\<close>,
  which leaves the attribute unset. Directories are not modelled: every path can be written.
\<close>

record ('x, 'o) vqa =
  model :: state_dict
  optim :: 'o
  output_dir :: "string option"
  valid_tuple :: "'x data_tuple option"
  files :: "string \<rightharpoonup> chunk list"
  trace :: "event list"

definition emit :: "event \<Rightarrow> ('x, 'o) vqa \<Rightarrow> ('x, 'o) vqa" where
  "emit ev s = s\<lparr>trace := trace s @ [ev]\<rparr>"

definition write_file :: "string \<Rightarrow> chunk \<Rightarrow> ('x, 'o) vqa \<Rightarrow> ('x, 'o) vqa" where
  "write_file p c s = emit (File_Write p) (s\<lparr>files := (files s)(p \<mapsto> [c])\<rparr>)"

definition append_file :: "string \<Rightarrow> chunk \<Rightarrow> ('x, 'o) vqa \<Rightarrow> ('x, 'o) vqa" where
  "append_file p c s =
     emit (File_Append p)
       (s\<lparr>files := (files s)(p \<mapsto> (case files s p of None \<Rightarrow> [c] | Some cs \<Rightarrow> cs @ [c]))\<rparr>)"

text \<open>\<open>os.path.join\<close> of two components (posixpath).\<close>

definition os_path_join :: "string \<Rightarrow> string \<Rightarrow> string" where
  "os_path_join a b =
     (if take 1 b = ''/'' then b
      else if a = [] \<or> last a = CHR ''/'' then a @ b
      else a @ ''/'' @ b)"

section \<open>Checkpoints (save and load, lines 190 to 198)\<close>

definition save :: "string \<Rightarrow> ('x, 'o) vqa \<Rightarrow> (error \<times> ('x, 'o) vqa) + ('x, 'o) vqa" where
  "save name s =
     (case output_dir s of
        None \<Rightarrow> Inl (AttributeError, s)
      | Some out \<Rightarrow> Inr (write_file (os_path_join out (name @ ''.pth'')) (Pth (model s)) s))"

text \<open>
  \<open>load_state_dict\<close> of the library, strict: the names of the loaded parameters must be
  the network's, each with the shape of the network's parameter, or it raises
  RuntimeError; then every parameter takes the loaded value. \<open>torch.load\<close> raises
  FileNotFoundError on a missing file, and fails to unpickle a file that is not one
  checkpoint.
\<close>

definition load_state_dict :: "state_dict \<Rightarrow> state_dict \<Rightarrow> error + state_dict" where
  "load_state_dict m sd =
     (if dom sd = dom m \<and> (\<forall>k \<in> dom m. map_option shape (sd k) = map_option shape (m k))
      then Inr sd else Inl RuntimeError)"

definition load :: "string \<Rightarrow> ('x, 'o) vqa \<Rightarrow> (error \<times> ('x, 'o) vqa) + ('x, 'o) vqa" where
  "load path s =
     (let s1 = emit (Print_Load path) s in
      case files s1 (path @ ''.pth'') of
        None \<Rightarrow> Inl (FileNotFoundError, s1)
      | Some [Pth sd] \<Rightarrow>
          (case load_state_dict (model s1) sd of
             Inl e \<Rightarrow> Inl (e, s1)
           | Inr m \<Rightarrow> Inr (s1\<lparr>model := m\<rparr>))
      | Some _ \<Rightarrow> Inl (RuntimeError, s1))"

section \<open>Prediction and evaluation (lines 139 to 176)\<close>

text \<open>The index of the first maximal element of a row.\<close>

fun argmax_from :: "nat \<Rightarrow> real \<Rightarrow> nat \<Rightarrow> real list \<Rightarrow> nat" where
  "argmax_from bi bv i [] = bi"
| "argmax_from bi bv i (x # xs) =
     (if bv < x then argmax_from i x (Suc i) xs else argmax_from bi bv (Suc i) xs)"

definition argmax :: "real list \<Rightarrow> nat" where
  "argmax xs = (case xs of [] \<Rightarrow> 0 | x # rest \<Rightarrow> argmax_from 0 x 1 rest)"

text \<open>
  \<open>score, label = logit.max(1)\<close>, read as the list of labels that the loop zips with
  the question ids. The library raises on a tensor with fewer than two dimensions and on
  an empty dimension 1; with more than two dimensions each label is an array, which
  cannot index \<open>label2ans\<close>.
\<close>

definition max1 :: "tensor \<Rightarrow> error + nat list" where
  "max1 t =
     (case shape t of
        [b, c] \<Rightarrow>
          if c = 0 then Inl IndexError
          else Inr (map (\<lambda>i. argmax (take c (drop (i * c) (vals t)))) [0..<b])
      | [] \<Rightarrow> Inl IndexError
      | [b] \<Rightarrow> Inl IndexError
      | _ \<Rightarrow> Inl TypeError)"

text \<open>
  The loop \<open>for qid, l in zip(ques_id, label): quesid2ans[qid.item()] = dset.label2ans[l]\<close>.
\<close>

fun record_answers ::
  "string list \<Rightarrow> (int \<times> nat) list \<Rightarrow> (int \<rightharpoonup> string) \<Rightarrow> error + (int \<rightharpoonup> string)" where
  "record_answers l2a [] q = Inr q"
| "record_answers l2a ((qid, l) # rest) q =
     (if l < length l2a then record_answers l2a rest (q(qid \<mapsto> l2a ! l))
      else Inl IndexError)"

text \<open>
  The library's elementwise operations broadcast their operands: the shapes are aligned
  at their last dimensions, and two extents go together when they are equal or one of
  them is 1, which is then repeated. The result of \<open>broadcast_rev\<close> is for shapes listed
  from the last dimension; shapes that do not go together raise RuntimeError.
\<close>

fun broadcast_rev :: "nat list \<Rightarrow> nat list \<Rightarrow> nat list option" where
  "broadcast_rev [] ys = Some ys"
| "broadcast_rev (x # xs) [] = Some (x # xs)"
| "broadcast_rev (x # xs) (y # ys) =
     (if x = y \<or> y = 1 then map_option ((#) x) (broadcast_rev xs ys)
      else if x = 1 then map_option ((#) y) (broadcast_rev xs ys)
      else None)"

definition broadcast_shapes :: "nat list \<Rightarrow> nat list \<Rightarrow> nat list option" where
  "broadcast_shapes a b = map_option rev (broadcast_rev (rev a) (rev b))"

text \<open>
  The elements of a tensor of shape \<open>ds\<close> repeated to the shape \<open>ts\<close> of the same length,
  where every extent of \<open>ds\<close> is that of \<open>ts\<close> or 1.
\<close>

fun expand :: "nat list \<Rightarrow> nat list \<Rightarrow> real list \<Rightarrow> real list" where
  "expand (d # ds) (t # ts) xs =
     (let n = prod_list ds;
          rows = concat (map (\<lambda>i. expand ds ts (take n (drop (i * n) xs))) [0..<d])
      in if d = t then rows else concat (replicate t rows))"
| "expand ds ts xs = xs"

definition broadcast_to :: "nat list \<Rightarrow> tensor \<Rightarrow> real list" where
  "broadcast_to r t = expand (replicate (length r - length (shape t)) 1 @ shape t) r (vals t)"

text \<open>
  Line 164: the mean, over the elements of one batch, of the equality of the thresholded
  yes/no-type logit with its target.
\<close>

definition yn_match :: "real \<Rightarrow> real \<Rightarrow> real" where
  "yn_match x y = (if (if 0.5 < x then 1 else 0) = y then 1 else 0)"

definition yn_batch_accuracy :: "tensor \<Rightarrow> tensor \<Rightarrow> error + real" where
  "yn_batch_accuracy yn tgt =
     (case broadcast_shapes (shape yn) (shape tgt) of
        None \<Rightarrow> Inl RuntimeError
      | Some r \<Rightarrow> Inr (mean (map2 yn_match (broadcast_to r yn) (broadcast_to r tgt))))"

text \<open>
  The network's forward pass is a parameter \<open>fwd training params input\<close>, giving the
  answer logits and the yes/no-type logits.
\<close>

type_synonym 'x forward = "bool \<Rightarrow> state_dict \<Rightarrow> 'x \<Rightarrow> tensor \<times> tensor"

text \<open>The loop of predict, lines 154 to 165, on \<open>(quesid2ans, yn_type_accuracy, num_batches)\<close>.\<close>

fun predict_batches ::
  "'x forward \<Rightarrow> state_dict \<Rightarrow> string list \<Rightarrow> 'x batch list \<Rightarrow>
   (int \<rightharpoonup> string) \<times> real \<times> nat \<Rightarrow> error + ((int \<rightharpoonup> string) \<times> real \<times> nat)" where
  "predict_batches fwd m l2a [] st = Inr st"
| "predict_batches fwd m l2a (b # bs) (q, acc, n) =
     (case max1 (fst (fwd False m (inputs b))) of
        Inl e \<Rightarrow> Inl e
      | Inr label \<Rightarrow>
          (case record_answers l2a (zip (ques_id b) label) q of
             Inl e \<Rightarrow> Inl e
           | Inr q' \<Rightarrow>
               (case yn_batch_accuracy (snd (fwd False m (inputs b))) (yntypetarget b) of
                  Inl e \<Rightarrow> Inl e
                | Inr a \<Rightarrow> predict_batches fwd m l2a bs (q', acc + a, n + 1))))"

text \<open>
  Modelled from the spec: \<open>dump_result\<close> of the evaluator (tasks/vqa_data_yn.py, not
  among the sources) serializes the mapping from question id to answer to the result
  file at the given path. The file is that one mapping: a write replaces what the file
  held.
\<close>

definition dump_result :: "(int \<rightharpoonup> string) \<Rightarrow> string \<Rightarrow> ('x, 'o) vqa \<Rightarrow> ('x, 'o) vqa" where
  "dump_result q p s = write_file p (Json q) s"

text \<open>
  predict. Unpacking a tuple that is None raises TypeError; dividing the float
  \<open>yn_type_accuracy\<close> by the integer \<open>num_batches = 0\<close> raises ZeroDivisionError.
\<close>

definition predict ::
  "'x forward \<Rightarrow> 'x data_tuple option \<Rightarrow> string option \<Rightarrow> ('x, 'o) vqa \<Rightarrow>
   (error \<times> ('x, 'o) vqa) + (('x, 'o) vqa \<times> (int \<rightharpoonup> string))" where
  "predict fwd eval_tuple dump s =
     (case eval_tuple of
        None \<Rightarrow> Inl (TypeError, s)
      | Some t \<Rightarrow>
          (case predict_batches fwd (model s) (label2ans t) (loader t) (Map.empty, 0, 0) of
             Inl e \<Rightarrow> Inl (e, s)
           | Inr (quesid2ans, yn_type_accuracy, num_batches) \<Rightarrow>
               if num_batches = 0 then Inl (ZeroDivisionError, s)
               else
                 let s1 = emit (Print_YN (yn_type_accuracy / real num_batches)) s in
                 (case dump of
                    None \<Rightarrow> Inr (s1, quesid2ans)
                  | Some p \<Rightarrow> Inr (dump_result quesid2ans p s1, quesid2ans))))"

definition evaluate ::
  "'x forward \<Rightarrow> 'x data_tuple option \<Rightarrow> string option \<Rightarrow> ('x, 'o) vqa \<Rightarrow>
   (error \<times> ('x, 'o) vqa) + (('x, 'o) vqa \<times> real)" where
  "evaluate fwd eval_tuple dump s =
     (case predict fwd eval_tuple dump s of
        Inl x \<Rightarrow> Inl x
      | Inr (s1, quesid2ans) \<Rightarrow>
          (case eval_tuple of
             None \<Rightarrow> Inl (AttributeError, s1)
           | Some t \<Rightarrow>
               (case evaluator t quesid2ans of
                  Inl e \<Rightarrow> Inl (e, s1)
                | Inr score \<Rightarrow> Inr (s1, score))))"

section \<open>The training loop (train, lines 85 to 137)\<close>

text \<open>
  Lines 95 and 110 to 112 (\<open>zero_grad\<close>, \<open>backward\<close>, gradient clipping and the
  optimizer's step) are a parameter: from the parameters, the optimizer's state, the
  batch and its loss to the new parameters and optimizer state.
\<close>

type_synonym ('x, 'o) optim_step = "state_dict \<times> 'o \<Rightarrow> 'x batch \<Rightarrow> real \<Rightarrow> state_dict \<times> 'o"

text \<open>The loop over the batches of one epoch, lines 92 to 117, on the object and \<open>quesid2ans\<close>.\<close>

fun train_batches ::
  "'x forward \<Rightarrow> ('x, 'o) optim_step \<Rightarrow> string list \<Rightarrow> 'x batch list \<Rightarrow>
   ('x, 'o) vqa \<times> (int \<rightharpoonup> string) \<Rightarrow>
   (error \<times> ('x, 'o) vqa) + (('x, 'o) vqa \<times> (int \<rightharpoonup> string))" where
  "train_batches fwd step l2a [] st = Inr st"
| "train_batches fwd step l2a (b # bs) (s, q) =
     (case batch_loss (fst (fwd True (model s) (inputs b))) (target b)
             (snd (fwd True (model s) (inputs b))) (yntypetarget b) of
        Inl e \<Rightarrow> Inl (e, s)
      | Inr loss \<Rightarrow>
          let s1 = s\<lparr>model := fst (step (model s, optim s) b loss),
                     optim := snd (step (model s, optim s) b loss)\<rparr> in
          (case max1 (fst (fwd True (model s) (inputs b))) of
             Inl e \<Rightarrow> Inl (e, s1)
           | Inr label \<Rightarrow>
               (case record_answers l2a (zip (ques_id b) label) q of
                  Inl e \<Rightarrow> Inl (e, s1)
                | Inr q' \<Rightarrow> train_batches fwd step l2a bs (s1, q'))))"

text \<open>
  Lines 121 to 128: the validation of one epoch. It gives the object, the running best
  score, and the validation score with the best score when validation is configured.
\<close>

definition validate ::
  "'x forward \<Rightarrow> 'x data_tuple option \<Rightarrow> ('x, 'o) vqa \<Rightarrow> real \<Rightarrow>
   (error \<times> ('x, 'o) vqa) + (('x, 'o) vqa \<times> real \<times> (real \<times> real) option)" where
  "validate fwd eval_tuple s best_valid =
     (if valid_tuple s \<noteq> None then
        (case evaluate fwd eval_tuple None s of
           Inl x \<Rightarrow> Inl x
         | Inr (s1, valid_score) \<Rightarrow>
             if best_valid < valid_score then
               (case save ''BEST'' s1 of
                  Inl x \<Rightarrow> Inl x
                | Inr s2 \<Rightarrow> Inr (s2, valid_score, Some (valid_score, valid_score)))
             else Inr (s1, best_valid, Some (valid_score, best_valid)))
      else Inr (s, best_valid, None))"

text \<open>One iteration of the loop over the epochs, lines 91 to 134.\<close>

definition train_epoch ::
  "'x forward \<Rightarrow> ('x, 'o) optim_step \<Rightarrow> 'x data_tuple \<Rightarrow> 'x data_tuple option \<Rightarrow> nat \<Rightarrow>
   ('x, 'o) vqa \<Rightarrow> real \<Rightarrow> (error \<times> ('x, 'o) vqa) + (('x, 'o) vqa \<times> real)" where
  "train_epoch fwd step train_tuple eval_tuple epoch s best_valid =
     (case train_batches fwd step (label2ans train_tuple) (loader train_tuple) (s, Map.empty) of
        Inl x \<Rightarrow> Inl x
      | Inr (s1, quesid2ans) \<Rightarrow>
          (case evaluator train_tuple quesid2ans of
             Inl e \<Rightarrow> Inl (e, s1)
           | Inr train_score \<Rightarrow>
               (case validate fwd eval_tuple s1 best_valid of
                  Inl x \<Rightarrow> Inl x
                | Inr (s2, best_valid', valid_info) \<Rightarrow>
                    let s3 = emit (Print_Log epoch train_score valid_info) s2 in
                    (case output_dir s3 of
                       None \<Rightarrow> Inl (AttributeError, s3)
                     | Some out \<Rightarrow>
                         Inr (append_file (out @ ''/log.log'')
                                (Log_Text epoch train_score valid_info) s3,
                              best_valid')))))"

fun train_epochs ::
  "'x forward \<Rightarrow> ('x, 'o) optim_step \<Rightarrow> 'x data_tuple \<Rightarrow> 'x data_tuple option \<Rightarrow> nat list \<Rightarrow>
   ('x, 'o) vqa \<times> real \<Rightarrow> (error \<times> ('x, 'o) vqa) + (('x, 'o) vqa \<times> real)" where
  "train_epochs fwd step train_tuple eval_tuple [] st = Inr st"
| "train_epochs fwd step train_tuple eval_tuple (epoch # es) (s, best_valid) =
     (case train_epoch fwd step train_tuple eval_tuple epoch s best_valid of
        Inl x \<Rightarrow> Inl x
      | Inr st \<Rightarrow> train_epochs fwd step train_tuple eval_tuple es st)"

text \<open>train, with \<open>args.epochs\<close> as its third argument: \<open>range\<close> of a negative number is empty.\<close>

definition train ::
  "'x forward \<Rightarrow> ('x, 'o) optim_step \<Rightarrow> int \<Rightarrow> 'x data_tuple \<Rightarrow> 'x data_tuple option \<Rightarrow>
   ('x, 'o) vqa \<Rightarrow> (error \<times> ('x, 'o) vqa) + (('x, 'o) vqa \<times> real)" where
  "train fwd step epochs train_tuple eval_tuple s =
     (case train_epochs fwd step train_tuple eval_tuple [0..<nat epochs] (s, 0) of
        Inl x \<Rightarrow> Inl x
      | Inr (s1, best_valid) \<Rightarrow>
          (case save ''LAST'' s1 of
             Inl x \<Rightarrow> Inl x
           | Inr s2 \<Rightarrow> Inr (s2, best_valid)))"

section \<open>The entry point in test mode (lines 205 to 253)\<close>

text \<open>
  The configuration values that test mode reads. \<open>args.nops\<close> is an integer (param.py is
  not among the sources; the spec calls it a count, and the code compares it with 1), so
  \<open>int(args.nops)\<close> is the value itself; \<open>arg_dump\<close> is the truth value of
  \<open>args.dump\<close>.
\<close>

record args =
  arg_nops :: int
  arg_dump :: bool
  arg_data :: string
  arg_output :: string
  arg_load :: "string option"

text \<open>Python's \<open>sub in s\<close> on strings.\<close>

fun str_contains :: "string \<Rightarrow> string \<Rightarrow> bool" where
  "str_contains sub [] = (sub = [])"
| "str_contains sub (c # cs) = (take (length sub) (c # cs) = sub \<or> str_contains sub cs)"

datatype branch = Test_Predict | Nops_Sweep | Folder_Sweep | Val_Dump | No_Such_Option

text \<open>The conditions of the if/elif chain of lines 213, 219, 232, 246 and 252, on \<open>args.test\<close>.\<close>

definition test_branch :: "args \<Rightarrow> string \<Rightarrow> branch" where
  "test_branch a sel =
     (if str_contains ''test'' sel then Test_Predict
      else if 1 < arg_nops a \<and> str_contains ''val'' sel \<and> \<not> arg_dump a then Nops_Sweep
      else if str_contains ''val'' sel \<and> \<not> arg_dump a \<and> arg_nops a = 1 then Folder_Sweep
      else if str_contains ''val'' sel \<and> arg_dump a then Val_Dump
      else No_Such_Option)"

text \<open>
  \<open>get_data_tuple\<close> builds its tuple from the dataset files, which are outside the
  model: it is a parameter of the split names, the batch size, the folder and \<open>nops\<close>
  (test mode always passes \<open>shuffle=False, drop_last=False\<close>), and it can raise.
\<close>

type_synonym 'x get_data_tuple = "string \<Rightarrow> nat \<Rightarrow> string \<Rightarrow> int option \<Rightarrow> error + 'x data_tuple"

text \<open>
  The loops of lines 220 to 230 and 236 to 245, over the list of their configurations
  (folder and nops). The first loop prints the nops of each configuration, the second
  does not. The assignment to \<open>args.data\<close> is read only by the call that follows it; the
  print of blank lines is left out.
\<close>

fun sweep ::
  "'x get_data_tuple \<Rightarrow> 'x forward \<Rightarrow> string \<Rightarrow> bool \<Rightarrow> (string \<times> int) list \<Rightarrow>
   ('x, 'o) vqa \<Rightarrow> (error \<times> ('x, 'o) vqa) + ('x, 'o) vqa" where
  "sweep gdt fwd out with_nops [] s = Inr s"
| "sweep gdt fwd out with_nops ((folder, n) # cs) s =
     (let s1 = emit (Print_Folder folder (if with_nops then Some n else None)) s in
      case gdt ''minival'' 950 folder (Some n) of
        Inl e \<Rightarrow> Inl (e, s1)
      | Inr t \<Rightarrow>
          (case evaluate fwd (Some t) (Some (os_path_join out ''yn_val_predict.json'')) s1 of
             Inl x \<Rightarrow> Inl x
           | Inr (s2, result) \<Rightarrow>
               sweep gdt fwd out with_nops cs (emit (Print_Result result) s2)))"

definition nops_configs :: "(string \<times> int) list" where
  "nops_configs = List.product [''varlenlol'', ''varlencwl''] [2, 3, 4, 5]"

definition folder_configs :: "int \<Rightarrow> (string \<times> int) list" where
  "folder_configs n =
     map (\<lambda>folder. (folder, n)) [''flipped_lol'', ''ordered_lol'', ''flipped_cwl'', ''ordered_cwl'']"

text \<open>
  Test mode, for \<open>args.test = sel\<close>, from the object \<open>s0\<close> that the constructor built with
  \<open>load=False\<close>.
\<close>

definition test_mode ::
  "'x get_data_tuple \<Rightarrow> 'x forward \<Rightarrow> args \<Rightarrow> string \<Rightarrow> ('x, 'o) vqa \<Rightarrow>
   (error \<times> ('x, 'o) vqa) + ('x, 'o) vqa" where
  "test_mode gdt fwd a sel s0 =
     (case (case arg_load a of None \<Rightarrow> Inr s0 | Some p \<Rightarrow> load p s0) of
        Inl x \<Rightarrow> Inl x
      | Inr s \<Rightarrow>
          (case test_branch a sel of
             Test_Predict \<Rightarrow>
               (case gdt sel 950 (arg_data a) None of
                  Inl e \<Rightarrow> Inl (e, s)
                | Inr t \<Rightarrow>
                    (case predict fwd (Some t)
                            (Some (os_path_join (arg_output a) ''test_predict.json'')) s of
                       Inl x \<Rightarrow> Inl x
                     | Inr (s1, q) \<Rightarrow> Inr s1))
           | Nops_Sweep \<Rightarrow> sweep gdt fwd (arg_output a) True nops_configs s
           | Folder_Sweep \<Rightarrow> sweep gdt fwd (arg_output a) False (folder_configs (arg_nops a)) s
           | Val_Dump \<Rightarrow>
               (case gdt ''minival'' 950 (arg_data a) (Some (arg_nops a)) of
                  Inl e \<Rightarrow> Inl (e, s)
                | Inr t \<Rightarrow>
                    (case predict fwd (Some t)
                            (Some (os_path_join (''data/vqa/'' @ arg_data a)
                                     ''yn_val_predict.json'')) s of
                       Inl x \<Rightarrow> Inl x
                     | Inr (s1, q) \<Rightarrow> Inr s1))
           | No_Such_Option \<Rightarrow> Inl (AssertionError, s)))"

section \<open>Reading a trace\<close>

text \<open>The events that a run added to the trace.\<close>

definition new_events :: "('x, 'o) vqa \<Rightarrow> ('x, 'o) vqa \<Rightarrow> event list" where
  "new_events s s' = drop (length (trace s)) (trace s')"

text \<open>The paths written, in order.\<close>

fun file_writes :: "event list \<Rightarrow> string list" where
  "file_writes [] = []"
| "file_writes (File_Write p # tr) = p # file_writes tr"
| "file_writes (ev # tr) = file_writes tr"

text \<open>The validation scores of the epochs, as the log lines show them.\<close>

fun valid_scores :: "event list \<Rightarrow> real list" where
  "valid_scores [] = []"
| "valid_scores (Print_Log epoch tr_score (Some (v, b)) # tr) = v # valid_scores tr"
| "valid_scores (ev # tr) = valid_scores tr"

text \<open>
  For each epoch, that is for each log line, whether the file \<open>p\<close> was written since the
  log line before it. The flag \<open>f\<close> is the answer so far for the current epoch.
\<close>

fun epoch_saves :: "string \<Rightarrow> bool \<Rightarrow> event list \<Rightarrow> bool list" where
  "epoch_saves p f [] = []"
| "epoch_saves p f (File_Write q # tr) = epoch_saves p (f \<or> q = p) tr"
| "epoch_saves p f (Print_Log epoch tr_score v # tr) = f # epoch_saves p False tr"
| "epoch_saves p f (ev # tr) = epoch_saves p f tr"

text \<open>The running maximum of the scores seen so far, which starts at \<open>start\<close>.\<close>

definition running_max :: "real \<Rightarrow> real list \<Rightarrow> real" where
  "running_max start vs = Max (insert start (set vs))"

text \<open>The first of a list of guarded choices whose guard holds, or the default.\<close>

fun first_match :: "(bool \<times> 'a) list \<Rightarrow> 'a \<Rightarrow> 'a" where
  "first_match [] d = d"
| "first_match ((c, x) # rest) d = (if c then x else first_match rest d)"

section \<open>Example inputs\<close>

text \<open>
  A small network for the examples: one parameter \<open>w\<close>; the answer logits of an input
  \<open>x\<close> are 1 at index \<open>x + w\<close> and 0 elsewhere, over six answers; every step of the
  optimizer adds 1 to \<open>w\<close>.
\<close>

definition ex_params :: "real \<Rightarrow> state_dict" where
  "ex_params w = [''w'' \<mapsto> \<lparr>shape = [1], vals = [w]\<rparr>]"

definition ex_weight :: "state_dict \<Rightarrow> real" where
  "ex_weight m = (case m ''w'' of None \<Rightarrow> 0 | Some t \<Rightarrow> sum_list (vals t))"

definition ex_forward :: "nat forward" where
  "ex_forward training m x =
     (\<lparr>shape = [1, 6],
       vals = map (\<lambda>i. if i = real x + ex_weight m then 1 else 0) [0, 1, 2, 3, 4, 5]\<rparr>,
      \<lparr>shape = [1, 1], vals = [0.9]\<rparr>)"

definition ex_step :: "(nat, unit) optim_step" where
  "ex_step mo b loss = (ex_params (ex_weight (fst mo) + 1), snd mo)"

definition ex_answers :: "string list" where
  "ex_answers = [''a0'', ''a1'', ''a2'', ''a3'', ''a4'', ''a5'']"

definition ex_batch :: "int \<Rightarrow> nat \<Rightarrow> nat batch" where
  "ex_batch qid x =
     \<lparr>ques_id = [qid], inputs = x, yntypetarget = \<lparr>shape = [1, 1], vals = [1]\<rparr>,
      target = \<lparr>shape = [1, 6], vals = [0, 1, 0, 0, 0, 0]\<rparr>\<rparr>"

text \<open>An evaluator that scores the answer to question 7: 0.2, 0.5, 0.3 and 0.7 for a1 to a4.\<close>

definition ex_score :: "(int \<rightharpoonup> string) \<Rightarrow> error + real" where
  "ex_score q =
     (case q 7 of
        None \<Rightarrow> Inl ZeroDivisionError
      | Some a \<Rightarrow>
          Inr (if a = ''a1'' then 0.2 else if a = ''a2'' then 0.5 else if a = ''a3'' then 0.3
               else if a = ''a4'' then 0.7 else 0))"

definition ex_tuple :: "nat data_tuple" where
  "ex_tuple = \<lparr>label2ans = ex_answers, loader = [ex_batch 7 0], evaluator = ex_score\<rparr>"

definition ex_vqa :: "nat data_tuple option \<Rightarrow> (nat, unit) vqa" where
  "ex_vqa vt =
     \<lparr>model = ex_params 0, optim = (), output_dir = Some ''out'', valid_tuple = vt,
      files = Map.empty, trace = []\<rparr>"

text \<open>
  Data tuples for test mode: one batch whose question id tells the folder and whose
  input is nops, so that the answer is the one numbered nops.
\<close>

definition ex_get_data_tuple :: "nat get_data_tuple" where
  "ex_get_data_tuple splits bs folder n =
     Inr \<lparr>label2ans = ex_answers,
          loader = [ex_batch (if folder = ''varlencwl'' \<or> folder = ''ordered_cwl'' then 2 else 1)
                      (case n of None \<Rightarrow> 0 | Some k \<Rightarrow> nat k)],
          evaluator = (\<lambda>q. Inr 1)\<rparr>"

definition ex_args :: "int \<Rightarrow> args" where
  "ex_args n =
     \<lparr>arg_nops = n, arg_dump = False, arg_data = ''orig'', arg_output = ''out'', arg_load = None\<rparr>"

text \<open>
  Two batches of different sizes for the yes/no-type accuracy: one sample, which matches
  its target, then three samples, of which one matches.
\<close>

definition yn_forward :: "nat forward" where
  "yn_forward training m x =
     (if x = 0 then (\<lparr>shape = [1, 2], vals = [1, 0]\<rparr>, \<lparr>shape = [1, 1], vals = [0.9]\<rparr>)
      else (\<lparr>shape = [3, 2], vals = [0, 1, 1, 0, 0, 1]\<rparr>,
            \<lparr>shape = [3, 1], vals = [0.9, 0.2, 0.7]\<rparr>))"

definition yn_tuple :: "nat data_tuple" where
  "yn_tuple =
     \<lparr>label2ans = [''yes'', ''no''],
      loader =
        [\<lparr>ques_id = [10], inputs = 0, yntypetarget = \<lparr>shape = [1, 1], vals = [1]\<rparr>,
          target = \<lparr>shape = [1, 2], vals = [1, 0]\<rparr>\<rparr>,
         \<lparr>ques_id = [11, 12, 13], inputs = 1,
          yntypetarget = \<lparr>shape = [3, 1], vals = [0, 1, 1]\<rparr>,
          target = \<lparr>shape = [3, 2], vals = [0, 1, 1, 0, 0, 1]\<rparr>\<rparr>],
      evaluator = (\<lambda>q. Inr 1)\<rparr>"

text \<open>Logits and targets of a batch of two samples, three answers and two yes/no types.\<close>

definition A0 :: tensor where
  "A0 = \<lparr>shape = [2, 3], vals = [0, 0, 0, 0, 0, 0]\<rparr>"

definition TA0 :: tensor where
  "TA0 = \<lparr>shape = [2, 3], vals = [1, 0, 0, 0, 1, 0]\<rparr>"

definition Y0 :: tensor where
  "Y0 = \<lparr>shape = [2, 2], vals = [0, 0, 0, 0]\<rparr>"

definition TY0 :: tensor where
  "TY0 = \<lparr>shape = [2, 2], vals = [1, 0, 0, 1]\<rparr>"

text \<open>A target of another width, and a target with one dimension.\<close>

definition TA1 :: tensor where
  "TA1 = \<lparr>shape = [2, 4], vals = [1, 0, 0, 0, 0, 1, 0, 0]\<rparr>"

definition T1 :: tensor where
  "T1 = \<lparr>shape = [6], vals = [1, 0, 0, 0, 1, 0]\<rparr>"

section \<open>Basic facts about the state\<close>

lemma emit_fields [simp]:
  "trace (emit ev s) = trace s @ [ev]" "files (emit ev s) = files s"
  "model (emit ev s) = model s" "optim (emit ev s) = optim s"
  "output_dir (emit ev s) = output_dir s" "valid_tuple (emit ev s) = valid_tuple s"
  by (simp_all add: emit_def)

lemma write_file_fields [simp]:
  "trace (write_file p c s) = trace s @ [File_Write p]"
  "files (write_file p c s) = (files s)(p \<mapsto> [c])"
  "model (write_file p c s) = model s" "optim (write_file p c s) = optim s"
  "output_dir (write_file p c s) = output_dir s" "valid_tuple (write_file p c s) = valid_tuple s"
  by (simp_all add: write_file_def)

lemma append_file_fields [simp]:
  "trace (append_file p c s) = trace s @ [File_Append p]"
  "model (append_file p c s) = model s" "optim (append_file p c s) = optim s"
  "output_dir (append_file p c s) = output_dir s" "valid_tuple (append_file p c s) = valid_tuple s"
  by (simp_all add: append_file_def)

lemma valid_scores_append: "valid_scores (xs @ ys) = valid_scores xs @ valid_scores ys"
  by (induction xs rule: valid_scores.induct) simp_all

lemma file_writes_append: "file_writes (xs @ ys) = file_writes xs @ file_writes ys"
  by (induction xs rule: file_writes.induct) simp_all

lemma epoch_saves_snoc_write: "epoch_saves p f (tr @ [File_Write q]) = epoch_saves p f tr"
  by (induction p f tr rule: epoch_saves.induct) simp_all

text \<open>The definitions that a run of the examples unfolds.\<close>

lemmas ex_defs =
  ex_tuple_def ex_batch_def ex_forward_def ex_step_def ex_vqa_def ex_params_def ex_weight_def
  ex_answers_def ex_score_def ex_get_data_tuple_def ex_args_def

lemmas run_defs =
  train_def train_epoch_def validate_def evaluate_def predict_def save_def load_def
  batch_loss_def dim_def size_at_def bce_loss_def max1_def argmax_def yn_batch_accuracy_def
  broadcast_shapes_def os_path_join_def emit_def write_file_def append_file_def dump_result_def Let_def

section \<open>The compound loss\<close>

text \<open>
  The cross-entropy of one element in closed form, and in the form in which the library
  evaluates it without overflow, \<open>max(x, 0) - x * y + ln (1 + exp (- |x|))\<close>.
\<close>

lemma bce_elem_closed: "bce_elem x y = (1 - y) * x + ln (1 + exp (- x))"
proof -
  have p: "0 < 1 + exp (- x)" by (simp add: add_pos_pos)
  have s: "ln (sigmoid x) = - ln (1 + exp (- x))"
    using p by (simp add: sigmoid_def ln_div)
  have "1 - sigmoid x = exp (- x) / (1 + exp (- x))"
    using p by (simp add: sigmoid_def field_simps)
  then have c: "ln (1 - sigmoid x) = - x - ln (1 + exp (- x))"
    using p by (simp add: ln_div)
  show ?thesis
    unfolding bce_elem_def s c by (simp add: algebra_simps)
qed

lemma bce_elem_stable: "bce_elem x y = max x 0 - x * y + ln (1 + exp (- \<bar>x\<bar>))"
proof (cases "0 \<le> x")
  case True
  then show ?thesis by (simp add: bce_elem_closed algebra_simps)
next
  case False
  have "1 + exp (- x) = exp (- x) * (1 + exp x)"
    by (simp add: algebra_simps exp_minus_inverse)
  moreover have "0 < 1 + exp x" by (simp add: add_pos_pos)
  ultimately have "ln (1 + exp (- x)) = - x + ln (1 + exp x)"
    by (simp add: ln_mult)
  with False show ?thesis by (simp add: bce_elem_closed algebra_simps)
qed

text \<open>
  C1. For a training batch with answer logits \<open>A\<close> and target \<open>TA\<close> of shape
  \<open>B \<times> C1\<close>, and yes/no-type logits \<open>Y\<close> and target \<open>TY\<close> of shape \<open>B \<times> C2\<close>, the loss
  computed before the backward pass is \<open>0.9 * C1 * BCE(A, TA) + 0.1 * C2 * BCE(Y, TY)\<close>,
  with the mean-reduced binary cross-entropy with logits. The arithmetic is that of the
  real numbers.
\<close>

theorem compound_loss:
  assumes "shape A = [B, C1]" and "shape TA = [B, C1]"
    and "shape Y = [B, C2]" and "shape TY = [B, C2]"
    and "wf_tensor A" and "wf_tensor TA" and "wf_tensor Y" and "wf_tensor TY"
    and "0 < B" and "0 < C1" and "0 < C2"
  shows "batch_loss A TA Y TY
     = Inr (0.9 * real C1 * bce_mean A TA + 0.1 * real C2 * bce_mean Y TY)"
  using assms
  by (simp add: batch_loss_def dim_def size_at_def bce_loss_def algebra_simps)

lemma bce_elem_zero: "bce_elem 0 y = ln 2"
  by (simp add: bce_elem_def sigmoid_def ln_div algebra_simps)

lemma bce_mean_A0: "bce_mean A0 TA0 = ln 2"
  by (simp add: bce_mean_def A0_def TA0_def mean_def bce_elem_zero)

lemma bce_mean_Y0: "bce_mean Y0 TY0 = ln 2"
  by (simp add: bce_mean_def Y0_def TY0_def mean_def bce_elem_zero)

text \<open>
  The batch of the example, with B = 2, C1 = 3 and C2 = 2: every logit is 0, so both
  cross-entropies are \<open>ln 2\<close> and the loss is \<open>(0.9 * 3 + 0.1 * 2) * ln 2\<close>.
\<close>

theorem compound_loss_witness:
  "batch_loss A0 TA0 Y0 TY0 = Inr (0.9 * 3 * bce_mean A0 TA0 + 0.1 * 2 * bce_mean Y0 TY0)
   \<and> batch_loss A0 TA0 Y0 TY0 = Inr (29 / 10 * ln 2)"
proof -
  have "batch_loss A0 TA0 Y0 TY0
      = Inr (0.9 * real 3 * bce_mean A0 TA0 + 0.1 * real 2 * bce_mean Y0 TY0)"
    by (rule compound_loss [where B = 2])
      (simp_all add: wf_tensor_def A0_def TA0_def Y0_def TY0_def)
  then show ?thesis by (simp add: bce_mean_A0 bce_mean_Y0)
qed

section \<open>The assertions on the shapes\<close>

text \<open>
  C3, as amended. The two assertions after the forward pass check that the answer logits,
  the answer target, the yes/no-type logits and their target all have exactly two
  dimensions: the assertion fails, before the loss is computed, exactly when one of the
  four has another number of dimensions. A mismatch between the shapes of two-dimensional
  logits and targets passes the assertions; the loss function of the library rejects it
  with ValueError, which is fatal as well.
\<close>

theorem shape_assertions:
  "(batch_loss A TA Y TY = Inl AssertionError)
     = (\<not> (dim A = 2 \<and> dim TA = 2 \<and> dim Y = 2 \<and> dim TY = 2))
   \<and> (dim A = 2 \<and> dim TA = 2 \<and> dim Y = 2 \<and> dim TY = 2
        \<and> (shape A \<noteq> shape TA \<or> shape Y \<noteq> shape TY)
       \<longrightarrow> batch_loss A TA Y TY = Inl ValueError)"
  by (auto simp add: batch_loss_def dim_def size_at_def bce_loss_def split: sum.splits)

text \<open>
  A target with one dimension fails the assertion; a target of shape \<open>2 \<times> 4\<close> against
  logits of shape \<open>2 \<times> 3\<close> passes it and fails in the loss function.
\<close>

theorem shape_assertions_witness:
  "dim T1 \<noteq> 2 \<and> batch_loss A0 T1 Y0 TY0 = Inl AssertionError
   \<and> dim A0 = 2 \<and> dim TA1 = 2 \<and> dim Y0 = 2 \<and> dim TY0 = 2 \<and> shape A0 \<noteq> shape TA1
   \<and> batch_loss A0 TA1 Y0 TY0 = Inl ValueError"
proof -
  have d: "dim T1 \<noteq> 2" "dim A0 = 2" "dim TA1 = 2" "dim Y0 = 2" "dim TY0 = 2"
    "shape A0 \<noteq> shape TA1"
    by (simp_all add: dim_def T1_def A0_def TA1_def Y0_def TY0_def)
  from d shape_assertions [of A0 T1 Y0 TY0]
  have "batch_loss A0 T1 Y0 TY0 = Inl AssertionError"
    by blast
  moreover from d shape_assertions [of A0 TA1 Y0 TY0]
  have "batch_loss A0 TA1 Y0 TY0 = Inl ValueError"
    by blast
  ultimately show ?thesis using d by blast
qed

text \<open>
  C3 as the spec states it fails: the target \<open>TA1\<close> does not have the shape of the logits
  \<open>A0\<close>, and no assertion fails.
\<close>

theorem shape_mismatch_not_asserted:
  "shape TA1 \<noteq> shape A0 \<and> batch_loss A0 TA1 Y0 TY0 \<noteq> Inl AssertionError"
  by (simp add: batch_loss_def dim_def size_at_def bce_loss_def A0_def TA1_def Y0_def TY0_def)

section \<open>Prediction\<close>

lemma broadcast_rev_same: "broadcast_rev xs xs = Some xs"
  by (induction xs) auto

lemma broadcast_shapes_same: "broadcast_shapes s s = Some s"
  by (simp add: broadcast_shapes_def broadcast_rev_same)

lemma concat_chunks:
  "length xs = d * n \<Longrightarrow> concat (map (\<lambda>i. take n (drop (i * n) xs)) [0..<d]) = xs"
proof (induction d arbitrary: xs)
  case 0
  then show ?case by simp
next
  case (Suc d)
  from Suc.prems have l: "length (drop n xs) = d * n" by simp
  have "concat (map (\<lambda>i. take n (drop (i * n) xs)) [0..<Suc d])
      = take n xs @ concat (map (\<lambda>i. take n (drop (i * n) (drop n xs))) [0..<d])"
    by (simp add: map_upt_Suc add.commute del: upt_Suc)
  with Suc.IH [OF l] show ?case by simp
qed

lemma expand_same: "length xs = prod_list s \<Longrightarrow> expand s s xs = xs"
proof (induction s arbitrary: xs)
  case Nil
  then show ?case by simp
next
  case (Cons d ds)
  let ?n = "prod_list ds"
  have "expand ds ds (take ?n (drop (i * ?n) xs)) = take ?n (drop (i * ?n) xs)" if "i < d" for i
  proof (rule Cons.IH)
    from that have "Suc i * ?n \<le> d * ?n" by (simp only: mult_le_mono1 Suc_leI)
    with Cons.prems show "length (take ?n (drop (i * ?n) xs)) = ?n" by simp
  qed
  then have m: "map (\<lambda>i. expand ds ds (take ?n (drop (i * ?n) xs))) [0..<d]
      = map (\<lambda>i. take ?n (drop (i * ?n) xs)) [0..<d]"
    by simp
  have "expand (d # ds) (d # ds) xs
      = concat (map (\<lambda>i. expand ds ds (take ?n (drop (i * ?n) xs))) [0..<d])"
    by (simp add: Let_def)
  also have "\<dots> = concat (map (\<lambda>i. take ?n (drop (i * ?n) xs)) [0..<d])"
    by (simp only: m)
  also from Cons.prems have "\<dots> = xs"
    by (intro concat_chunks) simp
  finally show ?case .
qed

text \<open>
  For logits and targets of one shape nothing is repeated: the accuracy of the batch is
  the mean of the matches of the elements.
\<close>

lemma yn_batch_accuracy_same_shape:
  assumes "shape yn = shape tgt" and "wf_tensor yn" and "wf_tensor tgt"
  shows "yn_batch_accuracy yn tgt = Inr (mean (map2 yn_match (vals yn) (vals tgt)))"
  using assms
  by (simp add: yn_batch_accuracy_def broadcast_shapes_same broadcast_to_def wf_tensor_def
      expand_same)

lemma predict_batches_sum:
  "predict_batches fwd m l2a bs (q0, acc0, n0) = Inr (q, acc, n) \<Longrightarrow>
   \<exists>accs. list_all2 (\<lambda>b a. yn_batch_accuracy (snd (fwd False m (inputs b))) (yntypetarget b) = Inr a)
             bs accs
     \<and> acc = acc0 + sum_list accs \<and> n = n0 + length bs"
proof (induction bs arbitrary: q0 acc0 n0)
  case Nil
  then show ?case by simp
next
  case (Cons b bs)
  from Cons.prems obtain q1 a where
    a: "yn_batch_accuracy (snd (fwd False m (inputs b))) (yntypetarget b) = Inr a"
    and rest: "predict_batches fwd m l2a bs (q1, acc0 + a, n0 + 1) = Inr (q, acc, n)"
    by (auto split: sum.splits)
  from Cons.IH [OF rest] obtain accs where
    "list_all2 (\<lambda>b a. yn_batch_accuracy (snd (fwd False m (inputs b))) (yntypetarget b) = Inr a)
       bs accs"
    and "acc = acc0 + a + sum_list accs" and "n = n0 + 1 + length bs"
    by blast
  with a show ?case
    by (intro exI [of _ "a # accs"]) simp
qed

lemma predict_Inr:
  assumes "predict fwd (Some t) dump s = Inr (s', q)"
  shows "\<exists>acc n.
       predict_batches fwd (model s) (label2ans t) (loader t) (Map.empty, 0, 0) = Inr (q, acc, n)
     \<and> n \<noteq> 0
     \<and> s' = (case dump of
               None \<Rightarrow> emit (Print_YN (acc / real n)) s
             | Some p \<Rightarrow> dump_result q p (emit (Print_YN (acc / real n)) s))"
  using assms
  by (auto simp add: predict_def Let_def split: sum.splits if_splits option.splits prod.splits)

text \<open>
  C4. When predict returns, every batch of the loader has its accuracy, the value that
  line 164 computes for it: the mean over the elements of the batch of the match between
  the thresholded logit (\<open>> 0.5\<close>) and the target. The yes/no-type accuracy that predict
  prints is the sum of these per-batch means divided by the number of batches: every
  batch weighs the same, whatever its number of samples. The print is the first effect
  of predict, and the only one when no dump path is given.
\<close>

theorem yn_accuracy_batch_mean:
  assumes "predict fwd (Some t) dump s = Inr (s', q)"
  shows "\<exists>accs tr.
       list_all2 (\<lambda>b a. yn_batch_accuracy (snd (fwd False (model s) (inputs b))) (yntypetarget b)
                          = Inr a) (loader t) accs
     \<and> trace s' = trace s @ Print_YN (sum_list accs / real (length (loader t))) # tr
     \<and> (dump = None \<longrightarrow> tr = [])"
proof -
  from predict_Inr [OF assms] obtain acc n where
    pb: "predict_batches fwd (model s) (label2ans t) (loader t) (Map.empty, 0, 0) = Inr (q, acc, n)"
    and s': "s' = (case dump of
                    None \<Rightarrow> emit (Print_YN (acc / real n)) s
                  | Some p \<Rightarrow> dump_result q p (emit (Print_YN (acc / real n)) s))"
    by blast
  from predict_batches_sum [OF pb] obtain accs where
    l: "list_all2 (\<lambda>b a. yn_batch_accuracy (snd (fwd False (model s) (inputs b))) (yntypetarget b)
                          = Inr a) (loader t) accs"
    and a: "acc = sum_list accs" "n = length (loader t)"
    by auto
  let ?tr = "case dump of None \<Rightarrow> [] | Some p \<Rightarrow> [File_Write p]"
  from a s' have "trace s' = trace s @ Print_YN (sum_list accs / real (length (loader t))) # ?tr"
    by (simp add: dump_result_def split: option.splits)
  moreover have "dump = None \<longrightarrow> ?tr = []" by simp
  ultimately show ?thesis using l by blast
qed

text \<open>
  The first batch has one sample, which matches; the second has three, of which one
  matches. The accuracy printed is \<open>(1 + 1/3) / 2 = 2/3\<close>; weighted by the samples it
  would be \<open>2/4\<close>.
\<close>

theorem yn_accuracy_batch_mean_witness:
  "\<exists>s' q. predict yn_forward (Some yn_tuple) None (ex_vqa None) = Inr (s', q)
     \<and> trace s' = [Print_YN (2 / 3)]"
proof -
  let ?s = "ex_vqa None :: (nat, unit) vqa"
  have "\<exists>s' q. predict yn_forward (Some yn_tuple) None ?s = Inr (s', q)"
    by (simp add: predict_def yn_tuple_def yn_forward_def max1_def argmax_def
        yn_batch_accuracy_def broadcast_shapes_def Let_def upt_conv_Cons)
  then obtain s' q where run: "predict yn_forward (Some yn_tuple) None ?s = Inr (s', q)"
    by blast
  from yn_accuracy_batch_mean [OF run] obtain accs where
    l: "list_all2 (\<lambda>b a. yn_batch_accuracy (snd (yn_forward False (model ?s) (inputs b)))
                          (yntypetarget b) = Inr a) (loader yn_tuple) accs"
    and t: "trace s' = trace ?s @ Print_YN (sum_list accs / real (length (loader yn_tuple))) # []"
    by auto
  from l have "accs = [1, 1 / 3]"
    by (auto simp add: yn_tuple_def yn_forward_def list_all2_Cons1 yn_batch_accuracy_def
        broadcast_shapes_def broadcast_to_def mean_def yn_match_def upt_conv_Cons)
  with t have "trace s' = [Print_YN (2 / 3)]"
    by (simp add: ex_vqa_def yn_tuple_def)
  with run show ?thesis by blast
qed

lemma record_answers_dom:
  "record_answers l2a ps q = Inr q' \<Longrightarrow> dom q' = dom q \<union> fst ` set ps"
  by (induction l2a ps q rule: record_answers.induct) (auto split: if_splits)

lemma max1_length: "max1 t = Inr ls \<Longrightarrow> \<exists>c. shape t = [length ls, c]"
  by (auto simp add: max1_def split: list.splits if_splits)

lemma predict_batches_dom:
  "predict_batches fwd m l2a bs (q0, acc0, n0) = Inr (q, acc, n) \<Longrightarrow>
   (\<forall>b \<in> set bs. length (ques_id b) \<le> hd (shape (fst (fwd False m (inputs b))))) \<Longrightarrow>
   dom q = dom q0 \<union> (\<Union>b \<in> set bs. set (ques_id b))"
proof (induction bs arbitrary: q0 acc0 n0)
  case Nil
  then show ?case by simp
next
  case (Cons b bs)
  from Cons.prems(1) obtain label q1 a where
    m: "max1 (fst (fwd False m (inputs b))) = Inr label"
    and r: "record_answers l2a (zip (ques_id b) label) q0 = Inr q1"
    and rest: "predict_batches fwd m l2a bs (q1, acc0 + a, n0 + 1) = Inr (q, acc, n)"
    by (auto split: sum.splits)
  from max1_length [OF m] Cons.prems(2) have "length (ques_id b) \<le> length label"
    by auto
  then have "fst ` set (zip (ques_id b) label) = set (ques_id b)"
    by (metis map_fst_zip_take min.absorb1 set_map take_all order_refl)
  with record_answers_dom [OF r] have "dom q1 = dom q0 \<union> set (ques_id b)"
    by simp
  moreover from Cons.IH [OF rest] Cons.prems(2)
  have "dom q = dom q1 \<union> (\<Union>b \<in> set bs. set (ques_id b))"
    by simp
  ultimately show ?case by auto
qed

text \<open>
  What predict does without a dump path when it returns, which needs a loader with at
  least one batch: no file is written, and the mapping returned has exactly the question
  ids of the loader's batches as its keys, provided that the network gives a row of
  logits for every question of a batch.
\<close>

lemma predict_without_dump:
  assumes "predict fwd (Some t) None s = Inr (s', q)"
    and "\<forall>b \<in> set (loader t).
           length (ques_id b) \<le> hd (shape (fst (fwd False (model s) (inputs b))))"
  shows "files s' = files s \<and> file_writes (new_events s s') = []
     \<and> dom q = (\<Union>b \<in> set (loader t). set (ques_id b))"
proof -
  from predict_Inr [OF assms(1)] obtain acc n where
    pb: "predict_batches fwd (model s) (label2ans t) (loader t) (Map.empty, 0, 0) = Inr (q, acc, n)"
    and s': "s' = emit (Print_YN (acc / real n)) s"
    by auto
  from predict_batches_dom [OF pb assms(2)] s' show ?thesis
    by (simp add: new_events_def)
qed

lemma predict_without_dump_example:
  "\<exists>s'. predict yn_forward (Some yn_tuple) None (ex_vqa None)
      = Inr (s', [10 \<mapsto> ''yes'', 11 \<mapsto> ''no'', 12 \<mapsto> ''yes'', 13 \<mapsto> ''no''])
     \<and> files s' = Map.empty"
  by (simp add: predict_def yn_tuple_def yn_forward_def max1_def argmax_def
      yn_batch_accuracy_def broadcast_shapes_def Let_def ex_vqa_def emit_def upt_conv_Cons)

text \<open>
  C5 fails on the code at a loader that yields no batch: called without a dump path,
  predict does not return the empty mapping, it raises ZeroDivisionError at the print of
  the accuracy.
\<close>

theorem predict_no_dump_empty_loader:
  "predict ex_forward (Some (ex_tuple\<lparr>loader := []\<rparr>)) None (ex_vqa None)
     = Inl (ZeroDivisionError, ex_vqa None)"
  by (simp add: predict_def)

text \<open>
  C9. On a loader that yields no batch the loop leaves \<open>num_batches\<close> at 0, and predict
  raises ZeroDivisionError, whatever the dump path: the state at the raise is the state at
  the call, so nothing was printed and no dump was written, and no mapping is returned.
\<close>

theorem predict_empty_loader:
  assumes "loader t = []"
  shows "predict_batches fwd (model s) (label2ans t) (loader t) (Map.empty, 0, 0)
       = Inr (Map.empty, 0, 0)
     \<and> predict fwd (Some t) dump s = Inl (ZeroDivisionError, s)"
  using assms by (simp add: predict_def)

theorem predict_empty_loader_witness:
  "loader (ex_tuple\<lparr>loader := []\<rparr>) = []
   \<and> predict ex_forward (Some (ex_tuple\<lparr>loader := []\<rparr>)) (Some ''out/dump.json'') (ex_vqa None)
       = Inl (ZeroDivisionError, ex_vqa None)"
  using predict_empty_loader
    [of "ex_tuple\<lparr>loader := []\<rparr>" ex_forward "ex_vqa None" "Some ''out/dump.json''"]
  by simp

section \<open>The training loop\<close>

lemma train_batches_frame:
  "train_batches fwd step l2a bs (s, q) = Inr (s', q') \<Longrightarrow>
   files s' = files s \<and> trace s' = trace s \<and> output_dir s' = output_dir s \<and> valid_tuple s' = valid_tuple s"
proof (induction bs arbitrary: s q)
  case Nil
  then show ?case by simp
next
  case (Cons b bs)
  from Cons.prems obtain s1 q1 where
    rest: "train_batches fwd step l2a bs (s1, q1) = Inr (s', q')"
    and s1: "files s1 = files s \<and> trace s1 = trace s \<and> output_dir s1 = output_dir s \<and> valid_tuple s1 = valid_tuple s"
    by (auto simp add: Let_def split: sum.splits)
  from Cons.IH [OF rest] s1 show ?case by simp
qed

lemma predict_no_dump_state:
  "predict fwd et None s = Inr (s', q) \<Longrightarrow> \<exists>a. s' = emit (Print_YN a) s"
  by (auto simp add: predict_def Let_def split: option.splits sum.splits prod.splits if_splits)

lemma evaluate_no_dump_state:
  "evaluate fwd et None s = Inr (s', v) \<Longrightarrow> \<exists>a. s' = emit (Print_YN a) s"
  by (auto simp add: evaluate_def split: option.splits sum.splits prod.splits dest: predict_no_dump_state)

lemma validate_configured:
  assumes "valid_tuple s \<noteq> None" and "output_dir s = Some out"
    and "validate fwd et s best = Inr (s', best', vi)"
  shows "\<exists>a v. vi = Some (v, best') \<and> best' = max best v \<and>
     s' = (if best < v then write_file (os_path_join out ''BEST.pth'') (Pth (model s)) (emit (Print_YN a) s)
           else emit (Print_YN a) s)"
proof -
  from assms(1,3) obtain s1 v where
    ev: "evaluate fwd et None s = Inr (s1, v)"
    and r: "(if best < v then (case save ''BEST'' s1 of Inl x \<Rightarrow> Inl x | Inr s2 \<Rightarrow> Inr (s2, v, Some (v, v)))
             else Inr (s1, best, Some (v, best))) = Inr (s', best', vi)"
    by (auto simp add: validate_def split: sum.splits prod.splits)
  from evaluate_no_dump_state [OF ev] obtain a where s1: "s1 = emit (Print_YN a) s" by blast
  from r s1 assms(2) show ?thesis
    by (auto simp add: save_def split: if_splits sum.splits)
qed

lemma validate_not_configured:
  "valid_tuple s = None \<Longrightarrow> validate fwd et s best = Inr (s, best, None)"
  by (simp add: validate_def)

lemma train_epoch_Inr:
  assumes "train_epoch fwd step tt et epoch s best = Inr (s', best')"
  shows "\<exists>s1 q ts s2 vi out.
     train_batches fwd step (label2ans tt) (loader tt) (s, Map.empty) = Inr (s1, q)
     \<and> evaluator tt q = Inr ts
     \<and> validate fwd et s1 best = Inr (s2, best', vi)
     \<and> output_dir s2 = Some out
     \<and> s' = append_file (out @ ''/log.log'') (Log_Text epoch ts vi) (emit (Print_Log epoch ts vi) s2)"
  using assms
  by (auto simp add: train_epoch_def Let_def split: sum.splits prod.splits option.splits)

lemma train_epoch_configured:
  assumes "valid_tuple s \<noteq> None" and "output_dir s = Some out"
    and "train_epoch fwd step tt et epoch s best = Inr (s', best')"
  shows "\<exists>a v ts. best' = max best v \<and>
     trace s' = trace s @ Print_YN a # (if best < v then [File_Write (os_path_join out ''BEST.pth'')] else [])
        @ [Print_Log epoch ts (Some (v, best')), File_Append (out @ ''/log.log'')]
     \<and> output_dir s' = Some out \<and> valid_tuple s' = valid_tuple s"
proof -
  from train_epoch_Inr [OF assms(3)] obtain s1 q ts s2 vi out' where
    tb: "train_batches fwd step (label2ans tt) (loader tt) (s, Map.empty) = Inr (s1, q)"
    and va: "validate fwd et s1 best = Inr (s2, best', vi)"
    and s': "s' = append_file (out' @ ''/log.log'') (Log_Text epoch ts vi) (emit (Print_Log epoch ts vi) s2)"
    and o: "output_dir s2 = Some out'"
    by blast
  from train_batches_frame [OF tb] assms(1,2)
  have f1: "trace s1 = trace s" "output_dir s1 = Some out" "valid_tuple s1 = valid_tuple s" "valid_tuple s1 \<noteq> None"
    by simp_all
  from validate_configured [OF f1(4) f1(2) va] obtain a v where
    vi: "vi = Some (v, best')" and b: "best' = max best v"
    and s2: "s2 = (if best < v then write_file (os_path_join out ''BEST.pth'') (Pth (model s1)) (emit (Print_YN a) s1)
           else emit (Print_YN a) s1)"
    by blast
  from s2 f1 have f2: "output_dir s2 = Some out" "valid_tuple s2 = valid_tuple s"
    "trace s2 = trace s @ Print_YN a # (if best < v then [File_Write (os_path_join out ''BEST.pth'')] else [])"
    by simp_all
  from s' f2 vi b o show ?thesis
    by auto
qed

lemma train_epoch_not_configured:
  assumes "valid_tuple s = None" and "output_dir s = Some out"
    and "train_epoch fwd step tt et epoch s best = Inr (s', best')"
  shows "\<exists>ts. best' = best \<and>
     trace s' = trace s @ [Print_Log epoch ts None, File_Append (out @ ''/log.log'')]
     \<and> output_dir s' = Some out \<and> valid_tuple s' = None"
proof -
  from train_epoch_Inr [OF assms(3)] obtain s1 q ts s2 vi out' where
    tb: "train_batches fwd step (label2ans tt) (loader tt) (s, Map.empty) = Inr (s1, q)"
    and va: "validate fwd et s1 best = Inr (s2, best', vi)"
    and s': "s' = append_file (out' @ ''/log.log'') (Log_Text epoch ts vi) (emit (Print_Log epoch ts vi) s2)"
    and o: "output_dir s2 = Some out'"
    by blast
  from train_batches_frame [OF tb] assms(1,2)
  have f1: "trace s1 = trace s" "output_dir s1 = Some out" "valid_tuple s1 = None"
    by simp_all
  from va validate_not_configured [OF f1(3)] have "s2 = s1" "best' = best" "vi = None"
    by simp_all
  with s' f1 o show ?thesis
    by auto
qed

lemma running_max_Nil: "running_max b [] = b"
  by (simp add: running_max_def)

lemma running_max_Cons: "running_max b (v # vs) = running_max (max b v) vs"
proof (cases "set vs = {}")
  case True
  then show ?thesis by (simp add: running_max_def max.commute)
next
  case False
  then show ?thesis
    by (simp add: running_max_def max.assoc max.commute max.left_commute)
qed

lemma running_saves_Cons:
  "map (\<lambda>e. running_max b (take e (v # vs)) < (v # vs) ! e) [0..<Suc n]
   = (b < v) # map (\<lambda>e. running_max (max b v) (take e vs) < vs ! e) [0..<n]"
  by (simp add: map_upt_Suc running_max_Nil running_max_Cons del: upt_Suc)

lemma train_epochs_configured:
  assumes "valid_tuple s \<noteq> None" and "output_dir s = Some out"
    and "train_epochs fwd step tt et es (s, best) = Inr (s', r)"
  shows "\<exists>tr. trace s' = trace s @ tr
     \<and> length (valid_scores tr) = length es
     \<and> epoch_saves (os_path_join out ''BEST.pth'') False tr
         = map (\<lambda>e. running_max best (take e (valid_scores tr)) < valid_scores tr ! e) [0..<length es]
     \<and> r = running_max best (valid_scores tr)
     \<and> output_dir s' = Some out"
  using assms
proof (induction es arbitrary: s best)
  case Nil
  then show ?case by (simp add: running_max_Nil)
next
  case (Cons epoch es)
  from Cons.prems(3) obtain s1 b1 where
    ep: "train_epoch fwd step tt et epoch s best = Inr (s1, b1)"
    and rest: "train_epochs fwd step tt et es (s1, b1) = Inr (s', r)"
    by (auto split: sum.splits)
  from train_epoch_configured [OF Cons.prems(1,2) ep] obtain a v ts where
    b1: "b1 = max best v"
    and t1: "trace s1 = trace s @ Print_YN a # (if best < v then [File_Write (os_path_join out ''BEST.pth'')] else [])
        @ [Print_Log epoch ts (Some (v, b1)), File_Append (out @ ''/log.log'')]"
    and o1: "output_dir s1 = Some out" and v1: "valid_tuple s1 \<noteq> None"
    using Cons.prems(1) by auto
  from Cons.IH [OF v1 o1 rest] obtain tr where
    t2: "trace s' = trace s1 @ tr"
    and l2: "length (valid_scores tr) = length es"
    and e2: "epoch_saves (os_path_join out ''BEST.pth'') False tr
         = map (\<lambda>e. running_max b1 (take e (valid_scores tr)) < valid_scores tr ! e) [0..<length es]"
    and r2: "r = running_max b1 (valid_scores tr)"
    and o2: "output_dir s' = Some out"
    by blast
  let ?tr = "Print_YN a # (if best < v then [File_Write (os_path_join out ''BEST.pth'')] else [])
        @ [Print_Log epoch ts (Some (v, b1)), File_Append (out @ ''/log.log'')] @ tr"
  have vs: "valid_scores ?tr = v # valid_scores tr" by simp
  have es: "epoch_saves (os_path_join out ''BEST.pth'') False ?tr
      = (best < v) # epoch_saves (os_path_join out ''BEST.pth'') False tr"
    by simp
  have "trace s' = trace s @ ?tr" using t1 t2 by simp
  moreover have "length (valid_scores ?tr) = length (epoch # es)" using vs l2 by simp
  moreover have "epoch_saves (os_path_join out ''BEST.pth'') False ?tr
         = map (\<lambda>e. running_max best (take e (valid_scores ?tr)) < valid_scores ?tr ! e) [0..<length (epoch # es)]"
  proof -
    have "epoch_saves (os_path_join out ''BEST.pth'') False ?tr
        = (best < v) # map (\<lambda>e. running_max (max best v) (take e (valid_scores tr)) < valid_scores tr ! e)
                         [0..<length es]"
      unfolding es e2 by (simp only: b1)
    also have "\<dots> = map (\<lambda>e. running_max best (take e (v # valid_scores tr)) < (v # valid_scores tr) ! e)
                         [0..<Suc (length es)]"
      by (rule running_saves_Cons [symmetric])
    finally show ?thesis unfolding vs by (simp del: upt_Suc)
  qed
  moreover have "r = running_max best (valid_scores ?tr)"
    unfolding vs using r2 b1 by (simp add: running_max_Cons)
  ultimately show ?case using o2 by blast
qed

lemma running_max_nonneg:
  assumes "vs \<noteq> []" and "\<forall>v \<in> set vs. 0 \<le> v"
  shows "running_max 0 vs = Max (set vs)"
proof -
  from assms(1) have ne: "set vs \<noteq> {}" and v: "hd vs \<in> set vs" by simp_all
  from v assms(2) have "0 \<le> hd vs" by blast
  also from v have "hd vs \<le> Max (set vs)" by simp
  finally have "max 0 (Max (set vs)) = Max (set vs)" by simp
  with ne show ?thesis by (simp add: running_max_def)
qed

text \<open>
  C2. Let a validation tuple be configured and let train return. The validation scores of
  the run, one per epoch, are those of its log lines. The checkpoint BEST is written in
  exactly the epochs whose score is strictly greater than the running maximum of the
  scores before it, which starts at 0; and train returns the running maximum of all the
  scores, which is the greatest score observed when there is a score and no score is
  negative.
\<close>

theorem best_checkpoint:
  assumes "valid_tuple s \<noteq> None" and "output_dir s = Some out"
    and "train fwd step epochs tt et s = Inr (s', r)"
  shows "length (valid_scores (new_events s s')) = nat epochs
     \<and> epoch_saves (os_path_join out ''BEST.pth'') False (new_events s s')
         = map (\<lambda>e. running_max 0 (take e (valid_scores (new_events s s')))
                      < valid_scores (new_events s s') ! e)
             [0..<nat epochs]
     \<and> r = running_max 0 (valid_scores (new_events s s'))
     \<and> (valid_scores (new_events s s') \<noteq> [] \<and> (\<forall>v \<in> set (valid_scores (new_events s s')). 0 \<le> v)
          \<longrightarrow> r = Max (set (valid_scores (new_events s s'))))"
proof -
  from assms(3) obtain s1 where
    ep: "train_epochs fwd step tt et [0..<nat epochs] (s, 0) = Inr (s1, r)"
    and sv: "save ''LAST'' s1 = Inr s'"
    by (auto simp add: train_def split: sum.splits prod.splits)
  from train_epochs_configured [OF assms(1,2) ep] obtain tr where
    t: "trace s1 = trace s @ tr"
    and l: "length (valid_scores tr) = nat epochs"
    and e: "epoch_saves (os_path_join out ''BEST.pth'') False tr
         = map (\<lambda>e. running_max 0 (take e (valid_scores tr)) < valid_scores tr ! e)
             [0..<nat epochs]"
    and r: "r = running_max 0 (valid_scores tr)"
    and o: "output_dir s1 = Some out"
    by auto
  from sv o t have "new_events s s' = tr @ [File_Write (os_path_join out ''LAST.pth'')]"
    by (auto simp add: save_def new_events_def)
  then have "valid_scores (new_events s s') = valid_scores tr"
    and "epoch_saves (os_path_join out ''BEST.pth'') False (new_events s s')
       = epoch_saves (os_path_join out ''BEST.pth'') False tr"
    by (simp_all add: valid_scores_append epoch_saves_snoc_write)
  with l e r show ?thesis by (simp add: running_max_nonneg)
qed

lemma ex_run:
  "\<exists>s'. train ex_forward ex_step 4 ex_tuple (Some ex_tuple) (ex_vqa (Some ex_tuple))
       = Inr (s', 7 / 10)
     \<and> valid_scores (new_events (ex_vqa (Some ex_tuple)) s') = [0.2, 0.5, 0.3, 0.7]
     \<and> epoch_saves ''out/BEST.pth'' False (new_events (ex_vqa (Some ex_tuple)) s')
         = [True, True, False, True]"
  by (simp add: run_defs ex_defs new_events_def upt_conv_Cons)

text \<open>
  The example of the spec: four epochs whose validation scores are 0.2, 0.5, 0.3 and
  0.7. BEST is written in the epochs of 0.2, 0.5 and 0.7, and train returns 0.7.
\<close>

theorem best_checkpoint_witness:
  "valid_tuple (ex_vqa (Some ex_tuple)) \<noteq> None \<and> output_dir (ex_vqa (Some ex_tuple)) = Some ''out''
   \<and> (\<exists>s'. train ex_forward ex_step 4 ex_tuple (Some ex_tuple) (ex_vqa (Some ex_tuple))
           = Inr (s', 0.7)
        \<and> valid_scores (new_events (ex_vqa (Some ex_tuple)) s') = [0.2, 0.5, 0.3, 0.7]
        \<and> epoch_saves (os_path_join ''out'' ''BEST.pth'') False
             (new_events (ex_vqa (Some ex_tuple)) s')
            = map (\<lambda>e. running_max 0 (take e [0.2, 0.5, 0.3, 0.7]) < [0.2, 0.5, 0.3, 0.7] ! e)
                [0..<4]
        \<and> epoch_saves (os_path_join ''out'' ''BEST.pth'') False
             (new_events (ex_vqa (Some ex_tuple)) s')
            = [True, True, False, True]
        \<and> 0.7 = running_max 0 [0.2, 0.5, 0.3, 0.7]
        \<and> 0.7 = Max (set [0.2, 0.5, 0.3, 0.7 :: real]))"
proof -
  let ?s = "ex_vqa (Some ex_tuple)"
  have h1: "valid_tuple ?s \<noteq> None" and h2: "output_dir ?s = Some ''out''"
    by (simp_all add: ex_vqa_def)
  from ex_run obtain s' where
    run: "train ex_forward ex_step 4 ex_tuple (Some ex_tuple) ?s = Inr (s', 0.7)"
    and vs: "valid_scores (new_events ?s s') = [0.2, 0.5, 0.3, 0.7]"
    and sv: "epoch_saves ''out/BEST.pth'' False (new_events ?s s') = [True, True, False, True]"
    by auto
  have p: "os_path_join ''out'' ''BEST.pth'' = ''out/BEST.pth''"
    by (simp add: os_path_join_def)
  from best_checkpoint [OF h1 h2 run]
  have "epoch_saves (os_path_join ''out'' ''BEST.pth'') False (new_events ?s s')
            = map (\<lambda>e. running_max 0 (take e [0.2, 0.5, 0.3, 0.7]) < [0.2, 0.5, 0.3, 0.7] ! e)
                [0..<4]"
    and "0.7 = running_max 0 [0.2, 0.5, 0.3, 0.7]"
    and "0.7 = Max (set [0.2, 0.5, 0.3, 0.7 :: real])"
    unfolding vs by simp_all
  with h1 h2 run vs sv p show ?thesis by auto
qed

lemma train_epochs_not_configured:
  assumes "valid_tuple s = None" and "output_dir s = Some out"
    and "train_epochs fwd step tt et es (s, best) = Inr (s', r)"
  shows "\<exists>tr. trace s' = trace s @ tr \<and> file_writes tr = [] \<and> valid_scores tr = []
     \<and> r = best \<and> output_dir s' = Some out"
  using assms
proof (induction es arbitrary: s)
  case Nil
  then show ?case by simp
next
  case (Cons epoch es)
  from Cons.prems(3) obtain s1 b1 where
    ep: "train_epoch fwd step tt et epoch s best = Inr (s1, b1)"
    and rest: "train_epochs fwd step tt et es (s1, b1) = Inr (s', r)"
    by (auto split: sum.splits)
  from train_epoch_not_configured [OF Cons.prems(1,2) ep] obtain ts where
    b1: "b1 = best"
    and t1: "trace s1 = trace s @ [Print_Log epoch ts None, File_Append (out @ ''/log.log'')]"
    and o1: "output_dir s1 = Some out" and v1: "valid_tuple s1 = None"
    by auto
  from Cons.IH [OF v1 o1 rest [unfolded b1]] obtain tr where
    "trace s' = trace s1 @ tr" "file_writes tr = []" "valid_scores tr = []" "r = best" "output_dir s' = Some out"
    by blast
  with t1 show ?case
    by (intro exI [of _ "[Print_Log epoch ts None, File_Append (out @ ''/log.log'')] @ tr"]) simp
qed

lemma train_epochs_total:
  assumes "valid_tuple s = None" and "output_dir s = Some out"
    and "\<forall>s1. \<exists>s2 q v. train_batches fwd step (label2ans tt) (loader tt) (s1, Map.empty) = Inr (s2, q)
           \<and> evaluator tt q = Inr v"
  shows "\<exists>s'. train_epochs fwd step tt et es (s, best) = Inr (s', best) \<and> output_dir s' = Some out"
  using assms(1,2)
proof (induction es arbitrary: s)
  case Nil
  then show ?case by simp
next
  case (Cons epoch es)
  from assms(3) obtain s2 q v where
    tb: "train_batches fwd step (label2ans tt) (loader tt) (s, Map.empty) = Inr (s2, q)"
    and ev: "evaluator tt q = Inr v"
    by blast
  from train_batches_frame [OF tb] Cons.prems
  have f: "output_dir s2 = Some out" "valid_tuple s2 = None" by simp_all
  let ?s3 = "append_file (out @ ''/log.log'') (Log_Text epoch v None) (emit (Print_Log epoch v None) s2)"
  have ep: "train_epoch fwd step tt et epoch s best = Inr (?s3, best)"
    using tb ev f by (simp add: train_epoch_def validate_not_configured)
  have "valid_tuple ?s3 = None" "output_dir ?s3 = Some out" using f by simp_all
  from Cons.IH [OF this] ep show ?case by simp
qed

text \<open>
  C7. Let no validation tuple be configured. When train returns, it returns 0, the only
  file it wrote (the log is appended to) is the checkpoint LAST, written last and holding
  the final parameters, so BEST was never written, and no validation score was logged.
  And train does return, with 0, whenever the pass over the training batches and the
  scoring of its answers succeed from every state: the missing validation is no error.
\<close>

theorem train_without_validation:
  assumes "valid_tuple s = None" and "output_dir s = Some out"
  shows "(\<forall>s' r. train fwd step epochs tt et s = Inr (s', r) \<longrightarrow>
            r = 0
            \<and> file_writes (new_events s s') = [os_path_join out ''LAST.pth'']
            \<and> last (trace s') = File_Write (os_path_join out ''LAST.pth'')
            \<and> files s' (os_path_join out ''LAST.pth'') = Some [Pth (model s')]
            \<and> valid_scores (new_events s s') = [])
       \<and> ((\<forall>s1. \<exists>s2 q v. train_batches fwd step (label2ans tt) (loader tt) (s1, Map.empty) = Inr (s2, q)
                  \<and> evaluator tt q = Inr v) \<longrightarrow>
            (\<exists>s'. train fwd step epochs tt et s = Inr (s', 0)))"
proof (intro conjI allI impI)
  fix s' r
  assume run: "train fwd step epochs tt et s = Inr (s', r)"
  then obtain s1 where
    ep: "train_epochs fwd step tt et [0..<nat epochs] (s, 0) = Inr (s1, r)"
    and sv: "save ''LAST'' s1 = Inr s'"
    by (auto simp add: train_def split: sum.splits prod.splits)
  from train_epochs_not_configured [OF assms ep] obtain tr where
    t: "trace s1 = trace s @ tr" "file_writes tr = []" "valid_scores tr = []" "r = 0" "output_dir s1 = Some out"
    by blast
  from sv t have s': "s' = write_file (os_path_join out ''LAST.pth'') (Pth (model s1)) s1"
    by (simp add: save_def)
  show "r = 0" by (rule t(4))
  show "file_writes (new_events s s') = [os_path_join out ''LAST.pth'']"
    using s' t by (simp add: new_events_def file_writes_append)
  show "last (trace s') = File_Write (os_path_join out ''LAST.pth'')"
    using s' by simp
  show "files s' (os_path_join out ''LAST.pth'') = Some [Pth (model s')]"
    using s' by simp
  show "valid_scores (new_events s s') = []"
    using s' t by (simp add: new_events_def valid_scores_append)
next
  assume "\<forall>s1. \<exists>s2 q v. train_batches fwd step (label2ans tt) (loader tt) (s1, Map.empty) = Inr (s2, q)
                  \<and> evaluator tt q = Inr v"
  from train_epochs_total [OF assms this] obtain s1 where
    "train_epochs fwd step tt et [0..<nat epochs] (s, 0) = Inr (s1, 0)" "output_dir s1 = Some out"
    by blast
  then show "\<exists>s'. train fwd step epochs tt et s = Inr (s', 0)"
    by (simp add: train_def save_def)
qed

lemma argmax_from_less: "bi < i \<Longrightarrow> argmax_from bi bv i xs < i + length xs"
  by (induction bi bv i xs rule: argmax_from.induct) auto

lemma argmax_less: "xs \<noteq> [] \<Longrightarrow> argmax xs < length xs"
  using argmax_from_less [of 0 1 "hd xs" "tl xs"]
  by (cases xs) (auto simp add: argmax_def)

lemma ex_train_pass:
  "\<exists>s2 q v. train_batches ex_forward ex_step (label2ans ex_tuple) (loader ex_tuple) (s1, Map.empty) = Inr (s2, q)
      \<and> evaluator ex_tuple q = Inr v"
proof -
  let ?row = "map (\<lambda>i. if i = real 0 + ex_weight (model s1) then 1 else 0) [0, 1, 2, 3, 4, 5] :: real list"
  have "argmax ?row < length ?row" by (rule argmax_less) simp
  then have "argmax ?row < 6" by simp
  then show ?thesis
    by (simp add: ex_tuple_def ex_batch_def ex_forward_def batch_loss_def dim_def size_at_def bce_loss_def
        max1_def ex_answers_def ex_score_def Let_def)
qed

text \<open>Two epochs of the example network without validation.\<close>

theorem train_without_validation_witness:
  "valid_tuple (ex_vqa None) = None \<and> output_dir (ex_vqa None) = Some ''out''
   \<and> (\<exists>s'. train ex_forward ex_step 2 ex_tuple None (ex_vqa None) = Inr (s', 0)
        \<and> file_writes (new_events (ex_vqa None) s') = [''out/LAST.pth'']
        \<and> last (trace s') = File_Write ''out/LAST.pth''
        \<and> files s' ''out/LAST.pth'' = Some [Pth (model s')])"
proof -
  let ?s = "ex_vqa None :: (nat, unit) vqa"
  have h1: "valid_tuple ?s = None" and h2: "output_dir ?s = Some ''out''"
    by (simp_all add: ex_vqa_def)
  note inst = train_without_validation [OF h1 h2, of ex_forward ex_step 2 ex_tuple None]
  from inst ex_train_pass obtain s' where
    run: "train ex_forward ex_step 2 ex_tuple None ?s = Inr (s', 0)"
    by blast
  have p: "os_path_join ''out'' ''LAST.pth'' = ''out/LAST.pth''"
    by (simp add: os_path_join_def)
  from inst run have "file_writes (new_events ?s s') = [os_path_join ''out'' ''LAST.pth'']"
    and "last (trace s') = File_Write (os_path_join ''out'' ''LAST.pth'')"
    and "files s' (os_path_join ''out'' ''LAST.pth'') = Some [Pth (model s')]"
    by blast+
  with h1 h2 run show ?thesis unfolding p by blast
qed


section \<open>Checkpoints\<close>

text \<open>
  C6. Let \<open>save name\<close> record the parameters at \<open>output/name.pth\<close>. After any change of
  the parameters that keeps their names and shapes and leaves the file alone, loading
  \<open>output/name\<close> gives every parameter the value it had when it was saved.
\<close>

theorem checkpoint_round_trip:
  assumes "os_path_join out (name @ ''.pth'') = out @ ''/'' @ name @ ''.pth''"
    and "output_dir s = Some out"
    and "save name s = Inr s1"
    and "files s2 = files s1"
    and "dom (model s2) = dom (model s)"
    and "\<forall>k \<in> dom (model s). map_option shape (model s2 k) = map_option shape (model s k)"
  shows "files s1 (out @ ''/'' @ name @ ''.pth'') = Some [Pth (model s)]
     \<and> (\<exists>s3. load (out @ ''/'' @ name) s2 = Inr s3 \<and> model s3 = model s)"
proof -
  from assms(1-3) have f: "files s1 (out @ ''/'' @ name @ ''.pth'') = Some [Pth (model s)]"
    by (auto simp add: save_def)
  have l: "load_state_dict (model s2) (model s) = Inr (model s)"
    using assms(5,6) by (simp add: load_state_dict_def)
  from f l assms(4) show ?thesis
    by (simp add: load_def Let_def)
qed

text \<open>Saving under \<open>X\<close>, setting the parameter to 5, and loading \<open>out/X\<close>.\<close>

theorem checkpoint_round_trip_witness:
  "\<exists>s1 s3. save ''X'' (ex_vqa None) = Inr s1
     \<and> model (s1\<lparr>model := ex_params 5\<rparr>) \<noteq> model (ex_vqa None)
     \<and> files s1 ''out/X.pth'' = Some [Pth (ex_params 0)]
     \<and> load ''out/X'' (s1\<lparr>model := ex_params 5\<rparr>) = Inr s3 \<and> model s3 = ex_params 0"
proof -
  let ?s = "ex_vqa None :: (nat, unit) vqa"
  obtain s1 where sv: "save ''X'' ?s = Inr s1"
    by (simp add: save_def ex_vqa_def)
  let ?s2 = "s1\<lparr>model := ex_params 5\<rparr>"
  have h: "os_path_join ''out'' (''X'' @ ''.pth'') = ''out'' @ ''/'' @ ''X'' @ ''.pth''"
    "output_dir ?s = Some ''out''" "files ?s2 = files s1" "dom (model ?s2) = dom (model ?s)"
    "\<forall>k \<in> dom (model ?s). map_option shape (model ?s2 k) = map_option shape (model ?s k)"
    by (simp_all add: os_path_join_def ex_vqa_def ex_params_def)
  have ne: "model ?s2 \<noteq> model ?s"
    by (auto simp add: ex_vqa_def ex_params_def dest: map_upd_eqD1)
  have m: "model ?s = ex_params 0" by (simp add: ex_vqa_def)
  from checkpoint_round_trip [OF h(1) h(2) sv h(3) h(4) h(5)] obtain s3 where
    "files s1 ''out/X.pth'' = Some [Pth (ex_params 0)]"
    "load ''out/X'' ?s2 = Inr s3" "model s3 = ex_params 0"
    unfolding m by auto
  with sv ne show ?thesis by blast
qed

section \<open>Test mode\<close>

lemma str_contains_iff: "str_contains sub s = (\<exists>pre post. s = pre @ sub @ post)"
proof (induction s)
  case Nil
  then show ?case by auto
next
  case (Cons c cs)
  have "(take (length sub) (c # cs) = sub) = (\<exists>post. c # cs = sub @ post)"
    by (metis append_eq_conv_conj)
  moreover have "(\<exists>pre post. c # cs = pre @ sub @ post)
      = ((\<exists>post. c # cs = sub @ post) \<or> (\<exists>pre post. cs = pre @ sub @ post))"
  proof
    assume "\<exists>pre post. c # cs = pre @ sub @ post"
    then obtain pre post where e: "c # cs = pre @ sub @ post" by blast
    show "(\<exists>post. c # cs = sub @ post) \<or> (\<exists>pre post. cs = pre @ sub @ post)"
    proof (cases pre)
      case Nil
      with e show ?thesis by auto
    next
      case (Cons p ps)
      with e have "cs = ps @ sub @ post" by simp
      then show ?thesis by blast
    qed
  next
    assume "(\<exists>post. c # cs = sub @ post) \<or> (\<exists>pre post. cs = pre @ sub @ post)"
    then show "\<exists>pre post. c # cs = pre @ sub @ post"
    proof
      assume "\<exists>post. c # cs = sub @ post"
      then show ?thesis by (metis append_Nil)
    next
      assume "\<exists>pre post. cs = pre @ sub @ post"
      then obtain pre post where "cs = pre @ sub @ post" by blast
      then have "c # cs = (c # pre) @ sub @ post" by simp
      then show ?thesis by blast
    qed
  qed
  ultimately show ?case using Cons.IH by simp
qed

text \<open>
  C8. In test mode, once the weights are loaded (or none are to load), what the program
  runs is the body of the first branch, in the order of the source, whose condition
  holds, and nothing else: (a) the selector contains \<open>test\<close>: the prediction on the
  selector's splits, dumped to \<open>test_predict.json\<close> under the output directory; (b) nops
  is greater than 1, the selector contains \<open>val\<close> and dump is not set: the sweep over
  two folders and nops 2 to 5; (c) the selector contains \<open>val\<close>, dump is not set and
  nops is 1: the sweep over the four folders; (d) the selector contains \<open>val\<close> and dump
  is set: the prediction on minival, dumped under \<open>data/vqa/\<close> and the data folder. When
  no condition holds the program stops with an assertion failure, in the state that the
  loading of the weights left. When the loading raises, no branch runs.
\<close>

theorem test_mode_first_match:
  "((case arg_load a of None \<Rightarrow> Inr s0 | Some p \<Rightarrow> load p s0) = Inr s \<longrightarrow>
      test_mode gdt fwd a sel s0 =
        first_match
          [((\<exists>u v. sel = u @ ''test'' @ v),
            (case gdt sel 950 (arg_data a) None of
               Inl e \<Rightarrow> Inl (e, s)
             | Inr t \<Rightarrow>
                 (case predict fwd (Some t)
                         (Some (os_path_join (arg_output a) ''test_predict.json'')) s of
                    Inl x \<Rightarrow> Inl x
                  | Inr (s1, q) \<Rightarrow> Inr s1))),
           (1 < arg_nops a \<and> (\<exists>u v. sel = u @ ''val'' @ v) \<and> \<not> arg_dump a,
            sweep gdt fwd (arg_output a) True nops_configs s),
           ((\<exists>u v. sel = u @ ''val'' @ v) \<and> \<not> arg_dump a \<and> arg_nops a = 1,
            sweep gdt fwd (arg_output a) False (folder_configs (arg_nops a)) s),
           ((\<exists>u v. sel = u @ ''val'' @ v) \<and> arg_dump a,
            (case gdt ''minival'' 950 (arg_data a) (Some (arg_nops a)) of
               Inl e \<Rightarrow> Inl (e, s)
             | Inr t \<Rightarrow>
                 (case predict fwd (Some t)
                         (Some (os_path_join (''data/vqa/'' @ arg_data a)
                                  ''yn_val_predict.json'')) s of
                    Inl x \<Rightarrow> Inl x
                  | Inr (s1, q) \<Rightarrow> Inr s1)))]
          (Inl (AssertionError, s)))
   \<and> ((case arg_load a of None \<Rightarrow> Inr s0 | Some p \<Rightarrow> load p s0) = Inl x \<longrightarrow>
        test_mode gdt fwd a sel s0 = Inl x)
   \<and> test_branch a sel =
        first_match
          [((\<exists>u v. sel = u @ ''test'' @ v), Test_Predict),
           (1 < arg_nops a \<and> (\<exists>u v. sel = u @ ''val'' @ v) \<and> \<not> arg_dump a, Nops_Sweep),
           ((\<exists>u v. sel = u @ ''val'' @ v) \<and> \<not> arg_dump a \<and> arg_nops a = 1, Folder_Sweep),
           ((\<exists>u v. sel = u @ ''val'' @ v) \<and> arg_dump a, Val_Dump)]
          No_Such_Option"
  by (auto simp add: test_branch_def str_contains_iff test_mode_def)

text \<open>
  The selector \<open>minival\<close> with nops 0 and no dump matches no condition. The selector
  \<open>minival_test\<close> with nops 1 and no dump matches (a) and (c), and the body of (a)
  runs: the only file written is \<open>test_predict.json\<close>. The selector \<open>minival\<close> with dump
  set matches (d) only, whose body writes under \<open>data/vqa/orig\<close>.
\<close>

theorem test_mode_first_match_witness:
  "test_mode ex_get_data_tuple ex_forward (ex_args 0) ''minival'' (ex_vqa None)
       = Inl (AssertionError, ex_vqa None)
   \<and> (\<exists>u v. ''minival_test'' = u @ ''test'' @ v) \<and> (\<exists>u v. ''minival_test'' = u @ ''val'' @ v)
   \<and> arg_nops (ex_args 1) = 1 \<and> \<not> arg_dump (ex_args 1)
   \<and> (\<exists>s'. test_mode ex_get_data_tuple ex_forward (ex_args 1) ''minival_test'' (ex_vqa None)
             = Inr s'
         \<and> file_writes (trace s') = [''out/test_predict.json'']
         \<and> files s' ''out/test_predict.json'' = Some [Json [1 \<mapsto> ''a0'']])
   \<and> (\<exists>s'. test_mode ex_get_data_tuple ex_forward ((ex_args 1)\<lparr>arg_dump := True\<rparr>) ''minival''
               (ex_vqa None)
             = Inr s'
         \<and> file_writes (trace s') = [''data/vqa/orig/yn_val_predict.json'']
         \<and> files s' ''data/vqa/orig/yn_val_predict.json'' = Some [Json [1 \<mapsto> ''a1'']])"
proof -
  let ?s = "ex_vqa None :: (nat, unit) vqa"
  let ?d = "(ex_args 1)\<lparr>arg_dump := True\<rparr>"
  have t: "\<not> (\<exists>u v. ''minival'' = u @ ''test'' @ v)"
    "\<exists>u v. ''minival_test'' = u @ ''test'' @ v" "\<exists>u v. ''minival_test'' = u @ ''val'' @ v"
    "\<exists>u v. ''minival'' = u @ ''val'' @ v"
    unfolding str_contains_iff [symmetric] by simp_all
  have n: "arg_nops (ex_args 0) = 0" "\<not> arg_dump (ex_args 0)"
    "arg_nops (ex_args 1) = 1" "\<not> arg_dump (ex_args 1)"
    "arg_nops ?d = 1" "arg_dump ?d"
    by (simp_all add: ex_args_def)
  have l: "(case arg_load (ex_args k) of None \<Rightarrow> Inr ?s | Some p \<Rightarrow> load p ?s) = Inr ?s" for k
    by (simp add: ex_args_def)
  have ld: "(case arg_load ?d of None \<Rightarrow> Inr ?s | Some p \<Rightarrow> load p ?s) = Inr ?s"
    by (simp add: ex_args_def)
  from test_mode_first_match
    [THEN conjunct1, rule_format, OF l, of ex_get_data_tuple ex_forward 0 "''minival''"]
    t(1) n(1,2)
  have c0: "test_mode ex_get_data_tuple ex_forward (ex_args 0) ''minival'' ?s
      = Inl (AssertionError, ?s)"
    by simp
  have "test_mode ex_get_data_tuple ex_forward (ex_args 1) ''minival_test'' ?s
      = (case ex_get_data_tuple ''minival_test'' 950 (arg_data (ex_args 1)) None of
               Inl e \<Rightarrow> Inl (e, ?s)
             | Inr t \<Rightarrow>
                 (case predict ex_forward (Some t)
                         (Some (os_path_join (arg_output (ex_args 1)) ''test_predict.json'')) ?s of
                    Inl x \<Rightarrow> Inl x
                  | Inr (s1, q) \<Rightarrow> Inr s1))"
    unfolding test_mode_first_match [THEN conjunct1, rule_format, OF l] using t(2)
    by (simp only: first_match.simps if_True)
  then have c1: "\<exists>s'. test_mode ex_get_data_tuple ex_forward (ex_args 1) ''minival_test'' ?s = Inr s'
         \<and> file_writes (trace s') = [''out/test_predict.json'']
         \<and> files s' ''out/test_predict.json'' = Some [Json [1 \<mapsto> ''a0'']]"
    by (simp add: run_defs ex_defs upt_conv_Cons)
  have "test_mode ex_get_data_tuple ex_forward ?d ''minival'' ?s
      = (case ex_get_data_tuple ''minival'' 950 (arg_data ?d) (Some (arg_nops ?d)) of
               Inl e \<Rightarrow> Inl (e, ?s)
             | Inr t \<Rightarrow>
                 (case predict ex_forward (Some t)
                         (Some (os_path_join (''data/vqa/'' @ arg_data ?d)
                                  ''yn_val_predict.json'')) ?s of
                    Inl x \<Rightarrow> Inl x
                  | Inr (s1, q) \<Rightarrow> Inr s1))"
    unfolding test_mode_first_match [THEN conjunct1, rule_format, OF ld] using t(1,4) n(5,6)
    by (simp only: first_match.simps if_True if_False simp_thms less_irrefl)
  then have c2: "\<exists>s'. test_mode ex_get_data_tuple ex_forward ?d ''minival'' ?s = Inr s'
         \<and> file_writes (trace s') = [''data/vqa/orig/yn_val_predict.json'']
         \<and> files s' ''data/vqa/orig/yn_val_predict.json'' = Some [Json [1 \<mapsto> ''a1'']]"
    by (simp add: run_defs ex_defs upt_conv_Cons)
  from c0 c1 c2 t(2,3) n(3,4) show ?thesis by blast
qed

lemma predict_dump_state:
  assumes "predict fwd (Some t) (Some p) s = Inr (s', q)"
  shows "\<exists>a acc n. predict_batches fwd (model s) (label2ans t) (loader t) (Map.empty, 0, 0) = Inr (q, acc, n)
      \<and> s' = write_file p (Json q) (emit (Print_YN a) s)"
  using assms
  by (auto simp add: predict_def Let_def dump_result_def split: sum.splits prod.splits if_splits)

lemma evaluate_dump_state:
  assumes "evaluate fwd (Some t) (Some p) s = Inr (s', v)"
  shows "\<exists>a q acc n. predict_batches fwd (model s) (label2ans t) (loader t) (Map.empty, 0, 0) = Inr (q, acc, n)
      \<and> s' = write_file p (Json q) (emit (Print_YN a) s)"
proof -
  from assms obtain q where "predict fwd (Some t) (Some p) s = Inr (s', q)"
    by (auto simp add: evaluate_def split: sum.splits prod.splits)
  from predict_dump_state [OF this] show ?thesis by blast
qed

lemma sweep_dumps:
  assumes "sweep gdt fwd out w cs s = Inr s'"
  shows "model s' = model s
     \<and> (\<exists>tr. trace s' = trace s @ tr
           \<and> file_writes tr = replicate (length cs) (os_path_join out ''yn_val_predict.json''))
     \<and> (cs \<noteq> [] \<longrightarrow>
          (\<exists>t q acc n. gdt ''minival'' 950 (fst (last cs)) (Some (snd (last cs))) = Inr t
             \<and> predict_batches fwd (model s) (label2ans t) (loader t) (Map.empty, 0, 0) = Inr (q, acc, n)
             \<and> files s' (os_path_join out ''yn_val_predict.json'') = Some [Json q]))"
  using assms
proof (induction cs arbitrary: s)
  case Nil
  then show ?case by simp
next
  case (Cons c cs)
  obtain folder n where c: "c = (folder, n)" by (cases c)
  let ?p = "os_path_join out ''yn_val_predict.json''"
  let ?s1 = "emit (Print_Folder folder (if w then Some n else None)) s"
  from Cons.prems c obtain t s2 v where
    g: "gdt ''minival'' 950 folder (Some n) = Inr t"
    and ev: "evaluate fwd (Some t) (Some ?p) ?s1 = Inr (s2, v)"
    and rest: "sweep gdt fwd out w cs (emit (Print_Result v) s2) = Inr s'"
    by (auto simp add: Let_def split: sum.splits prod.splits)
  from evaluate_dump_state [OF ev] obtain a q acc k where
    pb: "predict_batches fwd (model s) (label2ans t) (loader t) (Map.empty, 0, 0) = Inr (q, acc, k)"
    and s2: "s2 = write_file ?p (Json q) (emit (Print_YN a) ?s1)"
    by auto
  let ?s3 = "emit (Print_Result v) s2"
  have m3: "model ?s3 = model s" and f3: "files ?s3 ?p = Some [Json q]"
    and t3: "trace ?s3 = trace s @ [Print_Folder folder (if w then Some n else None), Print_YN a,
        File_Write ?p, Print_Result v]"
    using s2 by simp_all
  from Cons.IH [OF rest] obtain tr where
    m: "model s' = model ?s3"
    and tr: "trace s' = trace ?s3 @ tr" "file_writes tr = replicate (length cs) ?p"
    and lastc: "cs \<noteq> [] \<longrightarrow>
          (\<exists>t q acc n. gdt ''minival'' 950 (fst (last cs)) (Some (snd (last cs))) = Inr t
             \<and> predict_batches fwd (model ?s3) (label2ans t) (loader t) (Map.empty, 0, 0) = Inr (q, acc, n)
             \<and> files s' ?p = Some [Json q])"
    by blast
  have "model s' = model s" using m m3 by simp
  moreover have "\<exists>tr'. trace s' = trace s @ tr' \<and> file_writes tr' = replicate (length (c # cs)) ?p"
    using tr t3
    by (intro exI [of _ "[Print_Folder folder (if w then Some n else None), Print_YN a,
        File_Write ?p, Print_Result v] @ tr"]) simp
  moreover have "\<exists>t q acc n. gdt ''minival'' 950 (fst (last (c # cs))) (Some (snd (last (c # cs)))) = Inr t
             \<and> predict_batches fwd (model s) (label2ans t) (loader t) (Map.empty, 0, 0) = Inr (q, acc, n)
             \<and> files s' ?p = Some [Json q]"
  proof (cases "cs = []")
    case True
    with rest have "s' = ?s3" by simp
    with True c g pb f3 show ?thesis by simp
  next
    case False
    with lastc m3 show ?thesis by simp
  qed
  ultimately show ?case by blast
qed

lemma load_state:
  "(case arg_load a of None \<Rightarrow> Inr s0 | Some p \<Rightarrow> load p s0) = Inr s1 \<Longrightarrow>
   \<exists>tr0. trace s1 = trace s0 @ tr0 \<and> file_writes tr0 = []"
  by (auto simp add: load_def Let_def split: option.splits list.splits chunk.splits sum.splits)

text \<open>
  C10. In both sweeps over folders, every iteration dumps to the same path,
  \<open>yn_val_predict.json\<close> under the output directory: a sweep that completes has written
  that path once per configuration, eight times or four, and nothing else, and the file
  then holds only the predictions for the last configuration, folder \<open>varlencwl\<close> with
  nops 5 or folder \<open>ordered_cwl\<close> with nops 1.
\<close>

theorem sweep_dump_overwritten:
  assumes "test_branch a sel = Nops_Sweep \<or> test_branch a sel = Folder_Sweep"
    and "test_mode gdt fwd a sel s0 = Inr s'"
  shows "\<exists>s1 t q acc n.
       (case arg_load a of None \<Rightarrow> Inr s0 | Some p \<Rightarrow> load p s0) = Inr s1
     \<and> file_writes (new_events s0 s')
         = replicate (if test_branch a sel = Nops_Sweep then 8 else 4)
             (os_path_join (arg_output a) ''yn_val_predict.json'')
     \<and> gdt ''minival'' 950 (if test_branch a sel = Nops_Sweep then ''varlencwl'' else ''ordered_cwl'')
           (Some (if test_branch a sel = Nops_Sweep then 5 else 1)) = Inr t
     \<and> predict_batches fwd (model s1) (label2ans t) (loader t) (Map.empty, 0, 0) = Inr (q, acc, n)
     \<and> files s' (os_path_join (arg_output a) ''yn_val_predict.json'') = Some [Json q]"
proof -
  let ?p = "os_path_join (arg_output a) ''yn_val_predict.json''"
  let ?cs = "if test_branch a sel = Nops_Sweep then nops_configs else folder_configs (arg_nops a)"
  from assms obtain s1 where
    ld: "(case arg_load a of None \<Rightarrow> Inr s0 | Some p \<Rightarrow> load p s0) = Inr s1"
    and sw: "sweep gdt fwd (arg_output a) (test_branch a sel = Nops_Sweep) ?cs s1 = Inr s'"
    by (auto simp add: test_mode_def split: sum.splits)
  have n1: "test_branch a sel = Folder_Sweep \<Longrightarrow> arg_nops a = 1"
    by (simp add: test_branch_def split: if_splits)
  have cs: "?cs \<noteq> []" "length ?cs = (if test_branch a sel = Nops_Sweep then 8 else 4)"
    "fst (last ?cs) = (if test_branch a sel = Nops_Sweep then ''varlencwl'' else ''ordered_cwl'')"
    "snd (last ?cs) = (if test_branch a sel = Nops_Sweep then 5 else 1)"
    using assms(1) n1 by (auto simp add: nops_configs_def folder_configs_def)
  from sweep_dumps [OF sw] cs obtain tr t q acc n where
    tr: "trace s' = trace s1 @ tr" "file_writes tr = replicate (if test_branch a sel = Nops_Sweep then 8 else 4) ?p"
    and g: "gdt ''minival'' 950 (if test_branch a sel = Nops_Sweep then ''varlencwl'' else ''ordered_cwl'')
           (Some (if test_branch a sel = Nops_Sweep then 5 else 1)) = Inr t"
    and pb: "predict_batches fwd (model s1) (label2ans t) (loader t) (Map.empty, 0, 0) = Inr (q, acc, n)"
    and f: "files s' ?p = Some [Json q]"
    by (simp only:) blast
  from load_state [OF ld] tr have "file_writes (new_events s0 s') = replicate (if test_branch a sel = Nops_Sweep then 8 else 4) ?p"
    by (auto simp add: new_events_def file_writes_append)
  with ld g pb f show ?thesis by blast
qed

lemma ex_sweep_run:
  "\<exists>s'. test_mode ex_get_data_tuple ex_forward (ex_args 2) ''minival'' (ex_vqa None) = Inr s'"
  by (simp add: test_mode_def test_branch_def nops_configs_def run_defs ex_defs upt_conv_Cons)

lemma ex_sweep_run1:
  "\<exists>s'. test_mode ex_get_data_tuple ex_forward (ex_args 1) ''minival'' (ex_vqa None) = Inr s'"
  by (simp add: test_mode_def test_branch_def folder_configs_def run_defs ex_defs upt_conv_Cons)

text \<open>
  Both sweeps on the example: the last configurations predict \<open>a5\<close> and \<open>a1\<close> for
  question 2, and that is all the file holds.
\<close>

theorem sweep_dump_overwritten_witness:
  "test_branch (ex_args 2) ''minival'' = Nops_Sweep
   \<and> (\<exists>s'. test_mode ex_get_data_tuple ex_forward (ex_args 2) ''minival'' (ex_vqa None) = Inr s'
        \<and> file_writes (new_events (ex_vqa None) s') = replicate 8 ''out/yn_val_predict.json''
        \<and> files s' ''out/yn_val_predict.json'' = Some [Json [2 \<mapsto> ''a5'']])
   \<and> test_branch (ex_args 1) ''minival'' = Folder_Sweep
   \<and> (\<exists>s'. test_mode ex_get_data_tuple ex_forward (ex_args 1) ''minival'' (ex_vqa None) = Inr s'
        \<and> file_writes (new_events (ex_vqa None) s') = replicate 4 ''out/yn_val_predict.json''
        \<and> files s' ''out/yn_val_predict.json'' = Some [Json [2 \<mapsto> ''a1'']])"
proof -
  let ?s = "ex_vqa None :: (nat, unit) vqa"
  have p: "os_path_join (arg_output (ex_args n)) ''yn_val_predict.json'' = ''out/yn_val_predict.json''" for n
    by (simp add: os_path_join_def ex_args_def)
  have ld: "(case arg_load (ex_args n) of None \<Rightarrow> Inr ?s | Some p \<Rightarrow> load p ?s) = Inr s1 \<longleftrightarrow> s1 = ?s" for n s1
    by (auto simp add: ex_args_def)
  have b2: "test_branch (ex_args 2) ''minival'' = Nops_Sweep"
    by (simp add: test_branch_def ex_args_def)
  have b1: "test_branch (ex_args 1) ''minival'' = Folder_Sweep"
    by (simp add: test_branch_def ex_args_def)
  from ex_sweep_run obtain s2 where
    r2: "test_mode ex_get_data_tuple ex_forward (ex_args 2) ''minival'' ?s = Inr s2"
    by blast
  from ex_sweep_run1 obtain s1 where
    r1: "test_mode ex_get_data_tuple ex_forward (ex_args 1) ''minival'' ?s = Inr s1"
    by blast
  from sweep_dump_overwritten [OF _ r2] b2 obtain t q acc n where
    "file_writes (new_events ?s s2) = replicate 8 ''out/yn_val_predict.json''"
    "ex_get_data_tuple ''minival'' 950 ''varlencwl'' (Some 5) = Inr t"
    "predict_batches ex_forward (model ?s) (label2ans t) (loader t) (Map.empty, 0, 0) = Inr (q, acc, n)"
    "files s2 ''out/yn_val_predict.json'' = Some [Json q]"
    unfolding p ld by auto
  then have c2: "file_writes (new_events ?s s2) = replicate 8 ''out/yn_val_predict.json''
      \<and> files s2 ''out/yn_val_predict.json'' = Some [Json [2 \<mapsto> ''a5'']]"
    by (auto simp add: ex_defs max1_def argmax_def yn_batch_accuracy_def broadcast_shapes_def
        upt_conv_Cons)
  from sweep_dump_overwritten [OF _ r1] b1 obtain t q acc n where
    "file_writes (new_events ?s s1) = replicate 4 ''out/yn_val_predict.json''"
    "ex_get_data_tuple ''minival'' 950 ''ordered_cwl'' (Some 1) = Inr t"
    "predict_batches ex_forward (model ?s) (label2ans t) (loader t) (Map.empty, 0, 0) = Inr (q, acc, n)"
    "files s1 ''out/yn_val_predict.json'' = Some [Json q]"
    unfolding p ld by auto
  then have c1: "file_writes (new_events ?s s1) = replicate 4 ''out/yn_val_predict.json''
      \<and> files s1 ''out/yn_val_predict.json'' = Some [Json [2 \<mapsto> ''a1'']]"
    by (auto simp add: ex_defs max1_def argmax_def yn_batch_accuracy_def broadcast_shapes_def
        upt_conv_Cons)
  from b2 b1 r2 r1 c2 c1 show ?thesis by blast
qed


end
